theory Spec2Isabelle
  imports
    Main
    "HOL-Library.Word"
    "HOL-Library.Multiset"
    "HOL-Library.List_Lexorder"
    "HOL-Library.Char_ord"
begin

section \<open>Data model of \<^verbatim>\<open>main.go\<close>\<close>

text \<open>
  Go's \<^verbatim>\<open>int\<close> is modelled as a 64-bit word (the size of \<^verbatim>\<open>int\<close> on amd64 and
  arm64): \<open>+\<close> wraps around as Go's does, \<open>sint\<close> reads the two's complement value and
  \<open>\<le>s\<close> is Go's signed comparison. A Go \<^verbatim>\<open>error\<close> value is modelled by its message;
  the nil error is \<open>None\<close>.
\<close>

type_synonym goint = "64 word"
type_synonym goerror = string

text \<open>
  \<^verbatim>\<open>http.Response\<close>: the two fields the program reads. \<open>Body\<close> holds what
  \<^verbatim>\<open>ioutil.ReadAll\<close> returns on the body stream: the bytes, or a read error.
\<close>

record http_Response =
  StatusCode :: goint
  Body :: "goerror + string"

text \<open>
  \<^verbatim>\<open>http.Request\<close>: the fields \<^verbatim>\<open>doRequest\<close> sets. \<open>URL\<close> is \<open>None\<close> when
  \<^verbatim>\<open>url.Parse\<close> failed (its error is discarded by the source, leaving a nil URL).
\<close>

record http_Request =
  Method :: string
  URL :: "string option"
  Header :: "string \<rightharpoonup> string list"
  Body_req :: string

text \<open>\<^verbatim>\<open>type Request struct { Index int; Response *http.Response; Err error }\<close>\<close>

record Request =
  Index :: goint
  Response :: "http_Response option"
  Err :: "goerror option"

text \<open>\<^verbatim>\<open>type Report struct { TotalRequests int; TotalSuccess int; TotalFail int }\<close>\<close>

record Report =
  TotalRequests :: goint
  TotalSuccess :: goint
  TotalFail :: goint

text \<open>The two channels of a burst: \<^verbatim>\<open>resultC\<close> and \<^verbatim>\<open>errorC\<close>.\<close>

datatype chan = ResultC | ErrorC

text \<open>
  What one worker sees of the outside world: the result of \<^verbatim>\<open>url.Parse\<close>, the string
  \<^verbatim>\<open>time.Now().String()\<close>, and the pair \<^verbatim>\<open>(resp, err)\<close> that
  \<^verbatim>\<open>http.DefaultClient.Do\<close> returns for the request it is given. Every combination
  of a present or absent response with a present or absent error is a value of this type.
\<close>

record world =
  url_Parse :: "string \<Rightarrow> string option"
  time_Now :: string
  http_Do :: "http_Request \<Rightarrow> http_Response option \<times> goerror option"

section \<open>Formatting: \<^verbatim>\<open>%d\<close> and \<^verbatim>\<open>encoding/json\<close>\<close>

text \<open>Decimal digits of a natural number, most significant first.\<close>

fun dec :: "nat \<Rightarrow> string" where
  "dec n = (if n < 10 then [''0123456789'' ! n]
            else dec (n div 10) @ [''0123456789'' ! (n mod 10)])"

declare dec.simps [simp del]

text \<open>The verb \<^verbatim>\<open>%d\<close> of \<^verbatim>\<open>fmt\<close>, and the JSON encoding of a Go \<^verbatim>\<open>int\<close>.\<close>

definition format_d :: "goint \<Rightarrow> string" where
  "format_d i = (if sint i < 0 then CHR ''-'' # dec (nat (- sint i)) else dec (nat (sint i)))"

text \<open>
  The values handed to \<^verbatim>\<open>json.Marshal\<close>: strings, ints, and objects (a struct, with its
  fields in declaration order, or a map, with its keys sorted).
\<close>

datatype json = JString string | JInt goint | JObject "(string \<times> json) list"

text \<open>
  The encoding of one byte inside a JSON string, as \<^verbatim>\<open>encoding/json\<close> writes it with
  HTML escaping on (the default of \<^verbatim>\<open>json.Marshal\<close>): the quote and the backslash
  take a backslash, backspace, form feed, newline, carriage return and tab their short
  forms, the other bytes
  below 0x20 and \<^verbatim>\<open><\<close>, \<^verbatim>\<open>>\<close>, \<^verbatim>\<open>&\<close> the form \<^verbatim>\<open>\u00XX\<close>. Bytes from 0x80 on are
  copied: the model covers strings that are valid UTF-8 without U+2028 and U+2029.
  Backspace and form feed are written \<^verbatim>\<open>\b\<close> and \<^verbatim>\<open>\f\<close>, as Go 1.22 and later do
  (earlier releases wrote \<^verbatim>\<open>\u0008\<close> and \<^verbatim>\<open>\u000c\<close>).
\<close>

definition json_escape :: "char \<Rightarrow> string" where
  "json_escape c =
    (if c = CHR 0x22 then [CHR 0x5C, CHR 0x22]
     else if c = CHR 0x5C then [CHR 0x5C, CHR 0x5C]
     else if c = CHR 0x08 then [CHR 0x5C, CHR ''b'']
     else if c = CHR 0x0C then [CHR 0x5C, CHR ''f'']
     else if c = CHR 0x0A then [CHR 0x5C, CHR ''n'']
     else if c = CHR 0x0D then [CHR 0x5C, CHR ''r'']
     else if c = CHR 0x09 then [CHR 0x5C, CHR ''t'']
     else if (of_char c :: nat) < 0x20 \<or> c = CHR ''<'' \<or> c = CHR ''>'' \<or> c = CHR ''&''
       then [CHR 0x5C, CHR ''u'', CHR ''0'', CHR ''0'',
             ''0123456789abcdef'' ! ((of_char c :: nat) div 16),
             ''0123456789abcdef'' ! ((of_char c :: nat) mod 16)]
     else [c])"

definition json_quote :: "string \<Rightarrow> string" where
  "json_quote s = CHR 0x22 # concat (map json_escape s) @ [CHR 0x22]"

fun join_comma :: "string list \<Rightarrow> string" where
  "join_comma [] = []"
| "join_comma [x] = x"
| "join_comma (x # y # ys) = x @ CHR '','' # join_comma (y # ys)"

text \<open>\<^verbatim>\<open>json.Marshal\<close> on these values: the compact encoding. It cannot fail on them.\<close>

fun json_Marshal :: "json \<Rightarrow> string" where
  "json_Marshal (JString s) = json_quote s"
| "json_Marshal (JInt i) = format_d i"
| "json_Marshal (JObject kvs) =
     CHR ''{'' # join_comma (map (\<lambda>kv. json_quote (fst kv) @ CHR '':'' # json_Marshal (snd kv)) kvs)
       @ [CHR ''}'']"

text \<open>A Go map literal with string keys, as \<^verbatim>\<open>json.Marshal\<close> sees it: keys in sorted order.\<close>

definition json_of_map :: "(string \<times> json) list \<Rightarrow> json" where
  "json_of_map kvs = JObject (sort_key fst kvs)"

section \<open>The worker: \<^verbatim>\<open>doRequest\<close>\<close>

text \<open>
  Lines 43 to 59: the request the worker builds. The errors of \<^verbatim>\<open>url.Parse\<close> and
  \<^verbatim>\<open>json.Marshal\<close> are discarded by the source.
\<close>

definition newRequest :: "world \<Rightarrow> goint \<Rightarrow> string \<Rightarrow> string \<Rightarrow> http_Request" where
  "newRequest w cnt reqUrl key =
    (let reqURL = url_Parse w reqUrl;
         bodyBytes = json_Marshal (json_of_map
           [(''name'', JString (''request #'' @ format_d cnt)),
            (''date'', JString (time_Now w)),
            (''requests_sent'', JInt cnt)])
     in \<lparr>Method = ''POST'',
         URL = reqURL,
         Header = [''Content-Type'' \<mapsto> [''application/json; charset=UTF-8''],
                   ''X-Api-Key'' \<mapsto> [key]],
         Body_req = bodyBytes\<rparr>)"

text \<open>
  Lines 60 to 89. The function returns the Report as the worker leaves it and the sends
  it performed, in order, each with its channel. The two \<^verbatim>\<open>if\<close> statements of the
  source are independent (there is no \<^verbatim>\<open>else\<close> between them), and so are the two
  steps here. The source calls the index \<^verbatim>\<open>count\<close>. The increments are taken as
  atomic; the channels are unbuffered, and a send completes when a collector receives it.
\<close>

definition doRequest ::
  "world \<Rightarrow> goint \<Rightarrow> string \<Rightarrow> string \<Rightarrow> bool \<Rightarrow> Report \<Rightarrow> Report \<times> (chan \<times> Request) list" where
  "doRequest w cnt reqUrl key verbose report =
    (let req = newRequest w cnt reqUrl key;
         (resp, err) = http_Do w req;
         report1 = report\<lparr>TotalRequests := TotalRequests report + 1\<rparr>;
         (report2, sent2) =
           (case resp of
              None \<Rightarrow> (report1, [])
            | Some r \<Rightarrow>
                if StatusCode r \<noteq> 200 \<and> StatusCode r \<noteq> 202 \<and>
                   StatusCode r \<noteq> 201 \<and> StatusCode r \<noteq> 204
                then (report1\<lparr>TotalFail := TotalFail report1 + 1\<rparr>,
                      [(ErrorC, \<lparr>Index = cnt, Response = Some r, Err = err\<rparr>)])
                else (report1\<lparr>TotalSuccess := TotalSuccess report1 + 1\<rparr>,
                      [(ResultC, \<lparr>Index = cnt, Response = Some r, Err = None\<rparr>)]))
     in (case err of
           None \<Rightarrow> (report2, sent2)
         | Some e \<Rightarrow>
             (report2\<lparr>TotalFail := TotalFail report2 + 1\<rparr>,
              sent2 @ [(ErrorC, \<lparr>Index = cnt, Response = None, Err = Some e\<rparr>)])))"

text \<open>A world whose HTTP call returns the given pair, whatever the request.\<close>

definition world_returning :: "http_Response option \<Rightarrow> goerror option \<Rightarrow> world" where
  "world_returning resp err =
    \<lparr>url_Parse = Some, time_Now = ''2020-01-01 00:00:00 +0000 UTC'', http_Do = (\<lambda>req. (resp, err))\<rparr>"

section \<open>Effects and exits\<close>

text \<open>
  What a goroutine does to the outside, in order: a line given to \<^verbatim>\<open>log\<close>, text
  written to standard output or standard error, the start of the dispatcher goroutine
  with its arguments, and a call of \<^verbatim>\<open>time.Sleep\<close> with its \<^verbatim>\<open>time.Duration\<close>
  (an \<^verbatim>\<open>int64\<close> count of nanoseconds).
\<close>

datatype effect =
    Log string
  | Stdout string
  | Stderr string
  | Go_executeRequestWithTimer string string goint bool
  | Sleep "64 word"

text \<open>
  How a piece of code ends: it returns, it ends the process through \<^verbatim>\<open>os.Exit\<close>, or it
  panics on a nil pointer.
\<close>

datatype status = Returned | Exited nat | Panicked

definition andThen :: "effect list \<times> status \<Rightarrow> effect list \<times> status \<Rightarrow> effect list \<times> status" where
  "andThen p q = (case p of (es, Returned) \<Rightarrow> (es @ fst q, snd q) | (es, s) \<Rightarrow> (es, s))"

definition exitGracefully :: "goerror \<Rightarrow> effect list \<times> status" where
  "exitGracefully err = ([Stderr (''error: '' @ err @ [CHR 0x0A])], Exited 1)"

definition check :: "goerror option \<Rightarrow> effect list \<times> status" where
  "check err = (case err of None \<Rightarrow> ([], Returned) | Some e \<Rightarrow> exitGracefully e)"

text \<open>The exit status of the process when \<^verbatim>\<open>main\<close> ends with the given status.\<close>

definition exit_code :: "status \<Rightarrow> nat" where
  "exit_code s = (case s of Returned \<Rightarrow> 0 | Exited n \<Rightarrow> n | Panicked \<Rightarrow> 2)"

section \<open>\<^verbatim>\<open>prettyPrint\<close> and \<^verbatim>\<open>json.Indent\<close>\<close>

text \<open>
  \<^verbatim>\<open>scanner.go\<close> of \<^verbatim>\<open>encoding/json\<close>: the state machine \<^verbatim>\<open>json.Indent\<close> runs over
  the source bytes. The byte classes first.
\<close>

definition isSpace :: "char \<Rightarrow> bool" where
  "isSpace c = (c = CHR '' '' \<or> c = CHR 0x09 \<or> c = CHR 0x0D \<or> c = CHR 0x0A)"

definition isDigit :: "char \<Rightarrow> bool" where
  "isDigit c = (0x30 \<le> (of_char c :: nat) \<and> (of_char c :: nat) \<le> 0x39)"

definition isDigit19 :: "char \<Rightarrow> bool" where
  "isDigit19 c = (0x31 \<le> (of_char c :: nat) \<and> (of_char c :: nat) \<le> 0x39)"

definition isHex :: "char \<Rightarrow> bool" where
  "isHex c = (isDigit c \<or>
     (0x61 \<le> (of_char c :: nat) \<and> (of_char c :: nat) \<le> 0x66) \<or>
     (0x41 \<le> (of_char c :: nat) \<and> (of_char c :: nat) \<le> 0x46))"

text \<open>
  \<^verbatim>\<open>quoteChar\<close>, the offending byte as a syntax error shows it: the byte between single
  quotes, written as \<^verbatim>\<open>strconv.Quote\<close> writes the character with that code.
\<close>

definition hex2 :: "nat \<Rightarrow> string" where
  "hex2 n = [''0123456789abcdef'' ! (n div 16), ''0123456789abcdef'' ! (n mod 16)]"

definition quoteChar :: "char \<Rightarrow> string" where
  "quoteChar c =
    (let n = (of_char c :: nat) in
     if c = CHR 0x27 then [CHR 0x27, CHR 0x5C, CHR 0x27, CHR 0x27]
     else if c = CHR 0x22 then [CHR 0x27, CHR 0x22, CHR 0x27]
     else [CHR 0x27] @
       (if c = CHR 0x5C then [CHR 0x5C, CHR 0x5C]
        else if 0x20 \<le> n \<and> n < 0x7F then [c]
        else if 0xA1 \<le> n \<and> n \<noteq> 0xAD then [char_of (0xC0 + n div 64), char_of (0x80 + n mod 64)]
        else if n = 0x07 then [CHR 0x5C, CHR ''a'']
        else if n = 0x08 then [CHR 0x5C, CHR ''b'']
        else if n = 0x0C then [CHR 0x5C, CHR ''f'']
        else if n = 0x0A then [CHR 0x5C, CHR ''n'']
        else if n = 0x0D then [CHR 0x5C, CHR ''r'']
        else if n = 0x09 then [CHR 0x5C, CHR ''t'']
        else if n = 0x0B then [CHR 0x5C, CHR ''v'']
        else if n < 0x20 \<or> n = 0x7F then [CHR 0x5C, CHR ''x''] @ hex2 n
        else [CHR 0x5C, CHR ''u'', CHR ''0'', CHR ''0''] @ hex2 n)
       @ [CHR 0x27])"

text \<open>
  The codes a step returns, the entries of the parse stack, and the step functions
  (\<open>S_BeginValue\<close> stands for \<^verbatim>\<open>stateBeginValue\<close> as the value of \<^verbatim>\<open>s.step\<close>, and so
  on). The top of the parse stack is the head of the list.
\<close>

datatype scan_code =
    scanContinue | scanBeginLiteral | scanBeginObject | scanObjectKey | scanObjectValue
  | scanEndObject | scanBeginArray | scanArrayValue | scanEndArray | scanSkipSpace
  | scanEnd | scanError

datatype parse_state = parseObjectKey | parseObjectValue | parseArrayValue

datatype step_fn =
    S_BeginValueOrEmpty | S_BeginValue | S_BeginStringOrEmpty | S_BeginString
  | S_EndValue | S_EndTop
  | S_InString | S_InStringEsc | S_InStringEscU | S_InStringEscU1 | S_InStringEscU12
  | S_InStringEscU123
  | S_Neg | S_1 | S_0 | S_Dot | S_Dot0 | S_E | S_ESign | S_E0
  | S_T | S_Tr | S_Tru | S_F | S_Fa | S_Fal | S_Fals | S_N | S_Nu | S_Nul
  | S_Error

record scanner =
  scan_step :: step_fn
  scan_parseState :: "parse_state list"
  scan_err :: "goerror option"
  scan_endTop :: bool

text \<open>\<^verbatim>\<open>reset\<close>, \<^verbatim>\<open>error\<close>, \<^verbatim>\<open>pushParseState\<close> (with \<^verbatim>\<open>maxNestingDepth = 10000\<close>) and
  \<^verbatim>\<open>popParseState\<close>.\<close>

definition scanner_reset :: scanner where
  "scanner_reset = \<lparr>scan_step = S_BeginValue, scan_parseState = [], scan_err = None,
                     scan_endTop = False\<rparr>"

definition scanner_error :: "scanner \<Rightarrow> char \<Rightarrow> string \<Rightarrow> scan_code \<times> scanner" where
  "scanner_error s c context =
    (scanError,
     s\<lparr>scan_step := S_Error,
       scan_err := Some (''invalid character '' @ quoteChar c @ '' '' @ context)\<rparr>)"

definition pushParseState ::
  "scanner \<Rightarrow> char \<Rightarrow> parse_state \<Rightarrow> scan_code \<Rightarrow> scan_code \<times> scanner" where
  "pushParseState s c newParseState successState =
    (let s1 = s\<lparr>scan_parseState := newParseState # scan_parseState s\<rparr>
     in if length (scan_parseState s1) \<le> 10000 then (successState, s1)
        else scanner_error s1 c ''exceeded max depth'')"

definition popParseState :: "scanner \<Rightarrow> scanner" where
  "popParseState s =
    (let rest = tl (scan_parseState s)
     in if rest = []
        then s\<lparr>scan_parseState := rest, scan_step := S_EndTop, scan_endTop := True\<rparr>
        else s\<lparr>scan_parseState := rest, scan_step := S_EndValue\<rparr>)"

text \<open>
  The state functions. Each returns the code and the scanner it leaves. After the
  top-level value, \<^verbatim>\<open>stateEndTop\<close> records the error of a byte that is not white space
  and still returns \<^verbatim>\<open>scanEnd\<close>: the error shows at the end of the input.
\<close>

definition stateEndTop :: "scanner \<Rightarrow> char \<Rightarrow> scan_code \<times> scanner" where
  "stateEndTop s c =
    (if \<not> isSpace c then (scanEnd, snd (scanner_error s c ''after top-level value''))
     else (scanEnd, s))"

definition stateEndValue :: "scanner \<Rightarrow> char \<Rightarrow> scan_code \<times> scanner" where
  "stateEndValue s c =
    (case scan_parseState s of
       [] \<Rightarrow> stateEndTop (s\<lparr>scan_step := S_EndTop, scan_endTop := True\<rparr>) c
     | ps # rest \<Rightarrow>
         if isSpace c then (scanSkipSpace, s\<lparr>scan_step := S_EndValue\<rparr>)
         else (case ps of
            parseObjectKey \<Rightarrow>
              if c = CHR '':''
              then (scanObjectKey,
                    s\<lparr>scan_parseState := parseObjectValue # rest, scan_step := S_BeginValue\<rparr>)
              else scanner_error s c ''after object key''
          | parseObjectValue \<Rightarrow>
              if c = CHR '',''
              then (scanObjectValue,
                    s\<lparr>scan_parseState := parseObjectKey # rest, scan_step := S_BeginString\<rparr>)
              else if c = CHR ''}'' then (scanEndObject, popParseState s)
              else scanner_error s c ''after object key:value pair''
          | parseArrayValue \<Rightarrow>
              if c = CHR '','' then (scanArrayValue, s\<lparr>scan_step := S_BeginValue\<rparr>)
              else if c = CHR '']'' then (scanEndArray, popParseState s)
              else scanner_error s c ''after array element''))"

definition stateBeginString :: "scanner \<Rightarrow> char \<Rightarrow> scan_code \<times> scanner" where
  "stateBeginString s c =
    (if isSpace c then (scanSkipSpace, s)
     else if c = CHR 0x22 then (scanBeginLiteral, s\<lparr>scan_step := S_InString\<rparr>)
     else scanner_error s c ''looking for beginning of object key string'')"

definition stateBeginStringOrEmpty :: "scanner \<Rightarrow> char \<Rightarrow> scan_code \<times> scanner" where
  "stateBeginStringOrEmpty s c =
    (if isSpace c then (scanSkipSpace, s)
     else if c = CHR ''}''
     then stateEndValue (s\<lparr>scan_parseState := parseObjectValue # tl (scan_parseState s)\<rparr>) c
     else stateBeginString s c)"

definition stateBeginValue :: "scanner \<Rightarrow> char \<Rightarrow> scan_code \<times> scanner" where
  "stateBeginValue s c =
    (if isSpace c then (scanSkipSpace, s)
     else if c = CHR ''{''
       then pushParseState (s\<lparr>scan_step := S_BeginStringOrEmpty\<rparr>) c parseObjectKey scanBeginObject
     else if c = CHR ''[''
       then pushParseState (s\<lparr>scan_step := S_BeginValueOrEmpty\<rparr>) c parseArrayValue scanBeginArray
     else if c = CHR 0x22 then (scanBeginLiteral, s\<lparr>scan_step := S_InString\<rparr>)
     else if c = CHR ''-'' then (scanBeginLiteral, s\<lparr>scan_step := S_Neg\<rparr>)
     else if c = CHR ''0'' then (scanBeginLiteral, s\<lparr>scan_step := S_0\<rparr>)
     else if c = CHR ''t'' then (scanBeginLiteral, s\<lparr>scan_step := S_T\<rparr>)
     else if c = CHR ''f'' then (scanBeginLiteral, s\<lparr>scan_step := S_F\<rparr>)
     else if c = CHR ''n'' then (scanBeginLiteral, s\<lparr>scan_step := S_N\<rparr>)
     else if isDigit19 c then (scanBeginLiteral, s\<lparr>scan_step := S_1\<rparr>)
     else scanner_error s c ''looking for beginning of value'')"

definition stateBeginValueOrEmpty :: "scanner \<Rightarrow> char \<Rightarrow> scan_code \<times> scanner" where
  "stateBeginValueOrEmpty s c =
    (if isSpace c then (scanSkipSpace, s)
     else if c = CHR '']'' then stateEndValue s c
     else stateBeginValue s c)"

definition stateInString :: "scanner \<Rightarrow> char \<Rightarrow> scan_code \<times> scanner" where
  "stateInString s c =
    (if c = CHR 0x22 then (scanContinue, s\<lparr>scan_step := S_EndValue\<rparr>)
     else if c = CHR 0x5C then (scanContinue, s\<lparr>scan_step := S_InStringEsc\<rparr>)
     else if (of_char c :: nat) < 0x20 then scanner_error s c ''in string literal''
     else (scanContinue, s))"

definition stateInStringEsc :: "scanner \<Rightarrow> char \<Rightarrow> scan_code \<times> scanner" where
  "stateInStringEsc s c =
    (if c \<in> {CHR ''b'', CHR ''f'', CHR ''n'', CHR ''r'', CHR ''t'', CHR 0x5C, CHR ''/'', CHR 0x22}
     then (scanContinue, s\<lparr>scan_step := S_InString\<rparr>)
     else if c = CHR ''u'' then (scanContinue, s\<lparr>scan_step := S_InStringEscU\<rparr>)
     else scanner_error s c ''in string escape code'')"

text \<open>
  \<^verbatim>\<open>stateInStringEscU\<close>, \<^verbatim>\<open>U1\<close>, \<^verbatim>\<open>U12\<close> and \<^verbatim>\<open>U123\<close> differ in the next state only.
\<close>

definition stateInStringEscHex :: "step_fn \<Rightarrow> scanner \<Rightarrow> char \<Rightarrow> scan_code \<times> scanner" where
  "stateInStringEscHex next s c =
    (if isHex c then (scanContinue, s\<lparr>scan_step := next\<rparr>)
     else scanner_error s c (''in '' @ [CHR 0x5C] @ ''u hexadecimal character escape''))"

definition state0 :: "scanner \<Rightarrow> char \<Rightarrow> scan_code \<times> scanner" where
  "state0 s c =
    (if c = CHR ''.'' then (scanContinue, s\<lparr>scan_step := S_Dot\<rparr>)
     else if c = CHR ''e'' \<or> c = CHR ''E'' then (scanContinue, s\<lparr>scan_step := S_E\<rparr>)
     else stateEndValue s c)"

definition state1 :: "scanner \<Rightarrow> char \<Rightarrow> scan_code \<times> scanner" where
  "state1 s c =
    (if isDigit c then (scanContinue, s\<lparr>scan_step := S_1\<rparr>) else state0 s c)"

definition stateNeg :: "scanner \<Rightarrow> char \<Rightarrow> scan_code \<times> scanner" where
  "stateNeg s c =
    (if c = CHR ''0'' then (scanContinue, s\<lparr>scan_step := S_0\<rparr>)
     else if isDigit19 c then (scanContinue, s\<lparr>scan_step := S_1\<rparr>)
     else scanner_error s c ''in numeric literal'')"

definition stateDot :: "scanner \<Rightarrow> char \<Rightarrow> scan_code \<times> scanner" where
  "stateDot s c =
    (if isDigit c then (scanContinue, s\<lparr>scan_step := S_Dot0\<rparr>)
     else scanner_error s c ''after decimal point in numeric literal'')"

definition stateDot0 :: "scanner \<Rightarrow> char \<Rightarrow> scan_code \<times> scanner" where
  "stateDot0 s c =
    (if isDigit c then (scanContinue, s)
     else if c = CHR ''e'' \<or> c = CHR ''E'' then (scanContinue, s\<lparr>scan_step := S_E\<rparr>)
     else stateEndValue s c)"

definition stateESign :: "scanner \<Rightarrow> char \<Rightarrow> scan_code \<times> scanner" where
  "stateESign s c =
    (if isDigit c then (scanContinue, s\<lparr>scan_step := S_E0\<rparr>)
     else scanner_error s c ''in exponent of numeric literal'')"

definition stateE :: "scanner \<Rightarrow> char \<Rightarrow> scan_code \<times> scanner" where
  "stateE s c =
    (if c = CHR ''+'' \<or> c = CHR ''-'' then (scanContinue, s\<lparr>scan_step := S_ESign\<rparr>)
     else stateESign s c)"

definition stateE0 :: "scanner \<Rightarrow> char \<Rightarrow> scan_code \<times> scanner" where
  "stateE0 s c = (if isDigit c then (scanContinue, s) else stateEndValue s c)"

text \<open>
  The ten states inside \<^verbatim>\<open>true\<close>, \<^verbatim>\<open>false\<close> and \<^verbatim>\<open>null\<close> differ in the byte they
  expect and the next state only.
\<close>

definition stateLiteral ::
  "string \<Rightarrow> char \<Rightarrow> step_fn \<Rightarrow> scanner \<Rightarrow> char \<Rightarrow> scan_code \<times> scanner" where
  "stateLiteral lit expected next s c =
    (if c = expected then (scanContinue, s\<lparr>scan_step := next\<rparr>)
     else scanner_error s c
            (''in literal '' @ lit @ '' (expecting '' @ [CHR 0x27, expected, CHR 0x27] @ '')''))"

text \<open>\<^verbatim>\<open>s.step(s, c)\<close>, and \<^verbatim>\<open>eof\<close>.\<close>

definition scanner_step :: "scanner \<Rightarrow> char \<Rightarrow> scan_code \<times> scanner" where
  "scanner_step s c =
    (case scan_step s of
       S_BeginValueOrEmpty \<Rightarrow> stateBeginValueOrEmpty s c
     | S_BeginValue \<Rightarrow> stateBeginValue s c
     | S_BeginStringOrEmpty \<Rightarrow> stateBeginStringOrEmpty s c
     | S_BeginString \<Rightarrow> stateBeginString s c
     | S_EndValue \<Rightarrow> stateEndValue s c
     | S_EndTop \<Rightarrow> stateEndTop s c
     | S_InString \<Rightarrow> stateInString s c
     | S_InStringEsc \<Rightarrow> stateInStringEsc s c
     | S_InStringEscU \<Rightarrow> stateInStringEscHex S_InStringEscU1 s c
     | S_InStringEscU1 \<Rightarrow> stateInStringEscHex S_InStringEscU12 s c
     | S_InStringEscU12 \<Rightarrow> stateInStringEscHex S_InStringEscU123 s c
     | S_InStringEscU123 \<Rightarrow> stateInStringEscHex S_InString s c
     | S_Neg \<Rightarrow> stateNeg s c
     | S_1 \<Rightarrow> state1 s c
     | S_0 \<Rightarrow> state0 s c
     | S_Dot \<Rightarrow> stateDot s c
     | S_Dot0 \<Rightarrow> stateDot0 s c
     | S_E \<Rightarrow> stateE s c
     | S_ESign \<Rightarrow> stateESign s c
     | S_E0 \<Rightarrow> stateE0 s c
     | S_T \<Rightarrow> stateLiteral ''true'' (CHR ''r'') S_Tr s c
     | S_Tr \<Rightarrow> stateLiteral ''true'' (CHR ''u'') S_Tru s c
     | S_Tru \<Rightarrow> stateLiteral ''true'' (CHR ''e'') S_EndValue s c
     | S_F \<Rightarrow> stateLiteral ''false'' (CHR ''a'') S_Fa s c
     | S_Fa \<Rightarrow> stateLiteral ''false'' (CHR ''l'') S_Fal s c
     | S_Fal \<Rightarrow> stateLiteral ''false'' (CHR ''s'') S_Fals s c
     | S_Fals \<Rightarrow> stateLiteral ''false'' (CHR ''e'') S_EndValue s c
     | S_N \<Rightarrow> stateLiteral ''null'' (CHR ''u'') S_Nu s c
     | S_Nu \<Rightarrow> stateLiteral ''null'' (CHR ''l'') S_Nul s c
     | S_Nul \<Rightarrow> stateLiteral ''null'' (CHR ''l'') S_EndValue s c
     | S_Error \<Rightarrow> (scanError, s))"

definition scanner_eof :: "scanner \<Rightarrow> scan_code \<times> scanner" where
  "scanner_eof s =
    (if scan_err s \<noteq> None then (scanError, s)
     else if scan_endTop s then (scanEnd, s)
     else (let s1 = snd (scanner_step s (CHR '' ''))
           in if scan_endTop s1 then (scanEnd, s1)
              else (scanError,
                    if scan_err s1 = None
                    then s1\<lparr>scan_err := Some ''unexpected end of JSON input''\<rparr> else s1)))"

text \<open>
  \<^verbatim>\<open>json.Indent\<close> (\<^verbatim>\<open>indent.go\<close>): the loop over the source bytes, which stops at a
  syntax error, returning the scanner and the bytes written. White space inside the
  value is dropped, an opening bracket delays its newline so that an empty object stays
  \<^verbatim>\<open>{}\<close>, a comma is followed by a newline and a colon by a space; white space after the
  top-level value is copied. \<^verbatim>\<open>depth\<close> is an \<^verbatim>\<open>int\<close> in the source; it goes below zero
  only on input that \<^verbatim>\<open>eof\<close> then rejects.
\<close>

definition appendNewline :: "string \<Rightarrow> string \<Rightarrow> nat \<Rightarrow> string" where
  "appendNewline prefix indent depth = CHR 0x0A # prefix @ concat (replicate depth indent)"

fun appendIndent_loop ::
  "string \<Rightarrow> string \<Rightarrow> scanner \<Rightarrow> bool \<Rightarrow> nat \<Rightarrow> string \<Rightarrow> scanner \<times> string" where
  "appendIndent_loop prefix indent scan needIndent depth [] = (scan, [])"
| "appendIndent_loop prefix indent scan needIndent depth (c # src) =
     (let (v, scan1) = scanner_step scan c in
      if v = scanSkipSpace then appendIndent_loop prefix indent scan1 needIndent depth src
      else if v = scanError then (scan1, [])
      else
        let opening = (needIndent \<and> v \<noteq> scanEndObject \<and> v \<noteq> scanEndArray);
            depth1 = (if opening then depth + 1 else depth);
            need1 = (needIndent \<and> \<not> opening);
            pre = (if opening then appendNewline prefix indent depth1 else [])
        in if v = scanContinue then
             apsnd (\<lambda>dst. pre @ c # dst) (appendIndent_loop prefix indent scan1 need1 depth1 src)
           else if c = CHR ''{'' \<or> c = CHR ''['' then
             apsnd (\<lambda>dst. pre @ c # dst) (appendIndent_loop prefix indent scan1 True depth1 src)
           else if c = CHR '','' then
             apsnd (\<lambda>dst. pre @ c # appendNewline prefix indent depth1 @ dst)
               (appendIndent_loop prefix indent scan1 need1 depth1 src)
           else if c = CHR '':'' then
             apsnd (\<lambda>dst. pre @ c # CHR '' '' # dst)
               (appendIndent_loop prefix indent scan1 need1 depth1 src)
           else if c = CHR ''}'' \<or> c = CHR '']'' then
             (if need1 then
                apsnd (\<lambda>dst. pre @ c # dst)
                  (appendIndent_loop prefix indent scan1 False depth1 src)
              else
                apsnd (\<lambda>dst. pre @ appendNewline prefix indent (depth1 - 1) @ c # dst)
                  (appendIndent_loop prefix indent scan1 False (depth1 - 1) src))
           else
             apsnd (\<lambda>dst. pre @ c # dst)
               (appendIndent_loop prefix indent scan1 need1 depth1 src))"

text \<open>On a syntax error \<^verbatim>\<open>json.Indent\<close> writes nothing and returns the error.\<close>

definition json_Indent :: "string \<Rightarrow> string \<Rightarrow> string \<Rightarrow> goerror + string" where
  "json_Indent src prefix indent =
    (let (scan, dst) = appendIndent_loop prefix indent scanner_reset False 0 src;
         (v, scan1) = scanner_eof scan
     in if v = scanError then Inl (case scan_err scan1 of Some e \<Rightarrow> e | None \<Rightarrow> [])
        else Inr dst)"

text \<open>
  \<^verbatim>\<open>prettyPrint\<close> (lines 174 to 178) returns the buffer and the error of \<^verbatim>\<open>json.Indent\<close>.
\<close>

definition prettyPrint :: "string \<Rightarrow> string \<times> goerror option" where
  "prettyPrint b =
    (case json_Indent b [] ''  '' of
       Inl err \<Rightarrow> ([], Some err)
     | Inr out \<Rightarrow> (out, None))"

section \<open>The collectors: \<^verbatim>\<open>processResults\<close> and \<^verbatim>\<open>processErrors\<close>\<close>

text \<open>
  The body of \<^verbatim>\<open>case res := <-resultC\<close> (lines 96 to 108) for one received outcome:
  the new value of the local counter, the effects, and how the body ends. Reading
  \<^verbatim>\<open>res.Response.StatusCode\<close> through a nil \<^verbatim>\<open>Response\<close> panics. The deferred
  \<^verbatim>\<open>Close\<close> never runs, since the enclosing loop never returns.
\<close>

definition processResults_case ::
  "goint \<Rightarrow> bool \<Rightarrow> goint \<Rightarrow> Request \<Rightarrow> goint \<times> effect list \<times> status" where
  "processResults_case bulk verbose cnt res =
    (let cnt1 = cnt + 1;
         buffer = (if cnt1 = 1 then [Log (''buffer # '' @ format_d bulk)] else [])
     in case Response res of
          None \<Rightarrow> (cnt1, buffer, Panicked)
        | Some r \<Rightarrow>
            (cnt1,
             andThen
               (buffer @ [Log (''request #'' @ format_d (Index res) @
                   '' >> http status response '' @ format_d (StatusCode r))], Returned)
               (if verbose then
                  (case Body r of
                     Inl e \<Rightarrow> check (Some e)
                   | Inr respBody \<Rightarrow>
                       (let (prettyResp, err) = prettyPrint respBody
                        in andThen (check err)
                             ([Log (''request #'' @ format_d (Index res) @
                                 '' >> response: '' @ prettyResp)], Returned)))
                else ([], Returned))))"

text \<open>The body of \<^verbatim>\<open>case err := <-errorC\<close> (lines 119 to 134).\<close>

definition processErrors_case ::
  "goint \<Rightarrow> bool \<Rightarrow> goint \<Rightarrow> Request \<Rightarrow> goint \<times> effect list \<times> status" where
  "processErrors_case bulk verbose cnt err =
    (let cnt1 = cnt + 1;
         buffer = (if cnt1 = 1 then [Log (''buffer # '' @ format_d bulk)] else [])
     in case Err err of
          Some e \<Rightarrow>
            (cnt1,
             buffer @ [Log (''error on request #'' @ format_d (Index err) @ '' >> '' @ e)],
             Returned)
        | None \<Rightarrow>
            (case Response err of
               None \<Rightarrow> (cnt1, buffer, Panicked)
             | Some r \<Rightarrow>
                 (cnt1,
                  andThen
                    (buffer @ [Log (''error on request #'' @ format_d (Index err) @
                        '' >> http status code: '' @ format_d (StatusCode r))], Returned)
                    (if verbose then
                       (case Body r of
                          Inl newErr \<Rightarrow> check (Some newErr)
                        | Inr respBody \<Rightarrow>
                            (if length respBody > 0
                             then ([Log (''request #'' @ format_d (Index err) @
                                     '' >> response: '' @ respBody)], Returned)
                             else ([], Returned)))
                     else ([], Returned)))))"

text \<open>
  The collectors' loops over the outcomes they receive, in the order received. The
  loops of the source never return: the functions give the effects up to the last outcome
  of the list, or up to the exit or panic that ends the process.
\<close>

fun processResults :: "goint \<Rightarrow> bool \<Rightarrow> goint \<Rightarrow> Request list \<Rightarrow> effect list \<times> status" where
  "processResults bulk verbose cnt [] = ([], Returned)"
| "processResults bulk verbose cnt (res # rest) =
     (case processResults_case bulk verbose cnt res of
        (cnt1, es, st) \<Rightarrow> andThen (es, st) (processResults bulk verbose cnt1 rest))"

fun processErrors :: "goint \<Rightarrow> bool \<Rightarrow> goint \<Rightarrow> Request list \<Rightarrow> effect list \<times> status" where
  "processErrors bulk verbose cnt [] = ([], Returned)"
| "processErrors bulk verbose cnt (err # rest) =
     (case processErrors_case bulk verbose cnt err of
        (cnt1, es, st) \<Rightarrow> andThen (es, st) (processErrors bulk verbose cnt1 rest))"

section \<open>The dispatcher: \<^verbatim>\<open>executeRequestWithTimer\<close>\<close>

text \<open>
  Lines 149 to 152: \<^verbatim>\<open>for idx := 1; idx <= rqs; idx++\<close>, collecting the indices of the
  workers started. \<^verbatim>\<open>idx++\<close> wraps around, so the loop does not end when \<open>rqs\<close> is the
  largest \<^verbatim>\<open>int\<close>: the function is partial, \<open>None\<close> standing for a loop that runs
  forever.
\<close>

partial_function (option) spawn_loop :: "goint \<Rightarrow> goint \<Rightarrow> goint list \<Rightarrow> goint list option" where
  "spawn_loop idx rqs started =
    (if idx \<le>s rqs then spawn_loop (idx + 1) rqs (started @ [idx]) else Some started)"

declare spawn_loop.simps [code]

text \<open>
  The workers of a burst, run to completion one after the other in the order the
  scheduler picks (\<open>order\<close>); worker \<open>i\<close> sees the world \<open>W i\<close>. Their increments of the
  shared Report are taken as atomic.
\<close>

fun run_workers ::
  "(goint \<Rightarrow> world) \<Rightarrow> string \<Rightarrow> string \<Rightarrow> bool \<Rightarrow> goint list \<Rightarrow>
   Report \<times> (chan \<times> Request) list \<Rightarrow> Report \<times> (chan \<times> Request) list" where
  "run_workers W url key verbose [] st = st"
| "run_workers W url key verbose (i # order) st =
     (case doRequest (W i) i url key verbose (fst st) of
        (report1, sent) \<Rightarrow> run_workers W url key verbose order (report1, snd st @ sent))"

text \<open>
  One iteration of the tick loop (lines 143 to 156): start the workers, wait for all of
  them. \<open>sched\<close> is the scheduler's choice of an order for the workers started.
\<close>

definition burst ::
  "(goint \<Rightarrow> world) \<Rightarrow> (goint list \<Rightarrow> goint list) \<Rightarrow> string \<Rightarrow> string \<Rightarrow> goint \<Rightarrow> bool \<Rightarrow>
   Report \<Rightarrow> (Report \<times> (chan \<times> Request) list) option" where
  "burst W sched url key rqs verbose report =
    (case spawn_loop 1 rqs [] of
       None \<Rightarrow> None
     | Some started \<Rightarrow> Some (run_workers W url key verbose (sched started) (report, [])))"

text \<open>
  The two collectors of a burst (lines 154 and 155), each on the outcomes sent on its
  channel, in the order sent: the channels are unbuffered and the collectors are their
  only receivers, so every outcome sent is received. The effects of the result collector
  are put before those of the error collector; a collector that ends the process ends it
  for both.
\<close>

definition collectors :: "goint \<Rightarrow> bool \<Rightarrow> (chan \<times> Request) list \<Rightarrow> effect list \<times> status" where
  "collectors bulk verbose sent =
    andThen (processResults bulk verbose 0 (map snd (filter (\<lambda>p. fst p = ResultC) sent)))
            (processErrors bulk verbose 0 (map snd (filter (\<lambda>p. fst p = ErrorC) sent)))"

text \<open>
  The tick loop itself never returns; \<open>executeRequestWithTimer n\<close> is what the first
  \<open>n\<close> ticks have done: the Report as they leave it, the effects of their collectors, and
  whether a collector has ended the process (then no further tick runs). Tick \<open>k\<close> sees
  the worlds \<open>W k\<close> and the schedule \<open>sched k\<close>, and its collectors are given the tick
  number, the \<^verbatim>\<open>count\<close> of the source. \<open>None\<close> is a tick whose launch loop never ends.
\<close>

fun executeRequestWithTimer ::
  "nat \<Rightarrow> (nat \<Rightarrow> goint \<Rightarrow> world) \<Rightarrow> (nat \<Rightarrow> goint list \<Rightarrow> goint list) \<Rightarrow>
   string \<Rightarrow> string \<Rightarrow> goint \<Rightarrow> bool \<Rightarrow> Report \<Rightarrow> (Report \<times> effect list \<times> status) option" where
  "executeRequestWithTimer 0 W sched url key rqs verbose report = Some (report, [], Returned)"
| "executeRequestWithTimer (Suc n) W sched url key rqs verbose report =
     (case executeRequestWithTimer n W sched url key rqs verbose report of
        None \<Rightarrow> None
      | Some (report1, es, st) \<Rightarrow>
          (case st of
             Returned \<Rightarrow>
               (case burst (W (Suc n)) (sched (Suc n)) url key rqs verbose report1 of
                  None \<Rightarrow> None
                | Some (report2, sent) \<Rightarrow>
                    (case collectors (of_nat (Suc n)) verbose sent of
                       (es2, st2) \<Rightarrow> Some (report2, es @ es2, st2)))
           | _ \<Rightarrow> Some (report1, es, st)))"

section \<open>The run controller: \<^verbatim>\<open>executeRequests\<close> and \<^verbatim>\<open>main\<close>\<close>

definition time_Second :: "64 word" where
  "time_Second = 1000000000"

text \<open>\<^verbatim>\<open>json.Marshal(report)\<close>: a struct, its exported fields in declaration order.\<close>

definition json_of_Report :: "Report \<Rightarrow> json" where
  "json_of_Report r =
    JObject [(''TotalRequests'', JInt (TotalRequests r)),
             (''TotalSuccess'', JInt (TotalSuccess r)),
             (''TotalFail'', JInt (TotalFail r))]"

text \<open>
  Lines 160 to 172. \<open>report\<close> is the value of the shared Report when line 167 reads it,
  after the dispatcher goroutine has worked on it for the time of the sleep.
  \<^verbatim>\<open>time.Second * time.Duration(duration+1)\<close> is computed in 64 bits and wraps around;
  \<^verbatim>\<open>time.Sleep\<close> returns at once when given a duration that is zero or negative.
\<close>

definition executeRequests ::
  "string \<Rightarrow> string \<Rightarrow> goint \<Rightarrow> goint \<Rightarrow> bool \<Rightarrow> Report \<Rightarrow> effect list \<times> status" where
  "executeRequests url key rqs duration verbose report =
    andThen
      ([Log ''Waiting for all requests to be executed...'',
        Go_executeRequestWithTimer url key rqs verbose,
        Sleep (time_Second * (duration + 1)),
        Log ''Requests executed successfully.'',
        Log ''--------------------REPORT--------------------''], Returned)
      (let (jsonReport, err) = (json_Marshal (json_of_Report report), None)
       in andThen (check err)
            (let (prettyReport, err) = prettyPrint jsonReport
             in andThen (check err) ([Stdout (prettyReport @ [CHR 0x0A])], Returned)))"

text \<open>
  \<^verbatim>\<open>getFlags\<close> (lines 180 to 193) after \<^verbatim>\<open>flag.Parse\<close>: the five lines it prints. The
  parsed flags are the arguments.
\<close>

definition getFlags :: "string \<Rightarrow> string \<Rightarrow> goint \<Rightarrow> goint \<Rightarrow> bool \<Rightarrow> effect list" where
  "getFlags urlPtr keyPtr rqsPtr durationPtr verbosePtr =
    [Stdout (''url: '' @ urlPtr @ [CHR 0x0A]),
     Stdout (''key: '' @ keyPtr @ [CHR 0x0A]),
     Stdout (''rqs: '' @ format_d rqsPtr @ [CHR 0x0A]),
     Stdout (''duration: '' @ format_d durationPtr @ [CHR 0x0A]),
     Stdout (''verbose: '' @ (if verbosePtr then ''true'' else ''false'') @ [CHR 0x0A])]"

text \<open>
  \<^verbatim>\<open>main\<close> (lines 195 to 204), for the flags as parsed: what the main goroutine does
  when nothing ends the process under it. \<open>report\<close> is the Report it reads after its
  sleep.
\<close>

definition main_go ::
  "string \<Rightarrow> string \<Rightarrow> goint \<Rightarrow> goint \<Rightarrow> bool \<Rightarrow> Report \<Rightarrow> effect list \<times> status" where
  "main_go url key rqs duration verbose report =
    andThen (getFlags url key rqs duration verbose, Returned)
      (executeRequests url key rqs duration verbose report)"

text \<open>
  The process: the main goroutine together with the dispatcher it starts. \<open>bg\<close> is what
  the dispatcher and its collectors have done by the end of main's sleep (the Report,
  their effects, and whether a collector's \<^verbatim>\<open>check\<close> has called \<^verbatim>\<open>os.Exit\<close>). Their
  effects fall into main's sleep; if one of them has ended the process, main never
  wakes, and the process ends with that status; otherwise main goes on with the Report
  as they left it.
\<close>

fun until_sleep :: "effect list \<Rightarrow> effect list" where
  "until_sleep [] = []"
| "until_sleep (Sleep d # es) = [Sleep d]"
| "until_sleep (e # es) = e # until_sleep es"

fun after_sleep :: "effect list \<Rightarrow> effect list" where
  "after_sleep [] = []"
| "after_sleep (Sleep d # es) = es"
| "after_sleep (e # es) = after_sleep es"

definition process ::
  "string \<Rightarrow> string \<Rightarrow> goint \<Rightarrow> goint \<Rightarrow> bool \<Rightarrow> Report \<times> effect list \<times> status \<Rightarrow>
   effect list \<times> status" where
  "process url key rqs duration verbose bg =
    (case bg of
       (report, es, st) \<Rightarrow>
         (case main_go url key rqs duration verbose report of
            (mes, mst) \<Rightarrow>
              (case st of
                 Returned \<Rightarrow> (until_sleep mes @ es @ after_sleep mes, mst)
               | _ \<Rightarrow> (until_sleep mes @ es, st))))"

text \<open>The durations, in nanoseconds as signed integers, of the sleeps among the effects.\<close>

fun sleeps :: "effect list \<Rightarrow> int list" where
  "sleeps [] = []"
| "sleeps (Sleep d # es) = sint d # sleeps es"
| "sleeps (e # es) = sleeps es"

section \<open>Reference values\<close>

text \<open>
  The final report as the specification prints it: an object on five lines, indented by
  two spaces, with the fields \<^verbatim>\<open>TotalRequests\<close>, \<^verbatim>\<open>TotalSuccess\<close> and
  \<^verbatim>\<open>TotalFail\<close> in this order, each an integer in decimal.
\<close>

definition final_report_text :: "Report \<Rightarrow> string" where
  \<open>final_report_text r =
     ''{'' @ [CHR 0x0A] @
     ''  "TotalRequests": '' @ format_d (TotalRequests r) @ '','' @ [CHR 0x0A] @
     ''  "TotalSuccess": '' @ format_d (TotalSuccess r) @ '','' @ [CHR 0x0A] @
     ''  "TotalFail": '' @ format_d (TotalFail r) @ [CHR 0x0A] @
     ''}''\<close>

text \<open>The bytes \<^verbatim>\<open>%d\<close> can produce: a sign and the decimal digits.\<close>

definition plain :: "char \<Rightarrow> bool" where
  "plain c = (c \<in> set ''-0123456789'')"

text \<open>
  What \<^verbatim>\<open>http.DefaultClient.Do\<close> returns when the endpoint keeps redirecting: after
  ten redirects the client's redirect policy fails, and \<^verbatim>\<open>Do\<close> returns the last
  response, a 302 whose body it has closed, together with the policy's error.
\<close>

definition redirect_response :: http_Response where
  "redirect_response = \<lparr>StatusCode = 302, Body = Inl ''http: read on closed response body''\<rparr>"

definition redirect_error :: goerror where
  \<open>redirect_error = ''Post "https://postman-echo.com/post": stopped after 10 redirects''\<close>

definition redirect_world :: world where
  "redirect_world = world_returning (Some redirect_response) (Some redirect_error)"

text \<open>
  An outcome a collector can handle without reading through a nil response: on the result
  channel it has a response, on the error channel it has an error or a response.
\<close>

definition readable :: "chan \<times> Request \<Rightarrow> bool" where
  "readable p =
    (case p of
       (ResultC, x) \<Rightarrow> Response x \<noteq> None
     | (ErrorC, x) \<Rightarrow> Err x \<noteq> None \<or> Response x \<noteq> None)"

text \<open>The Report of \<^verbatim>\<open>report := Report{}\<close>, line 161.\<close>

definition Report_zero :: Report where
  "Report_zero = \<lparr>TotalRequests = 0, TotalSuccess = 0, TotalFail = 0\<rparr>"

section \<open>Helper lemmas\<close>

subsection \<open>The worker, by cases on what the HTTP call returned\<close>

lemma doRequest_unfold:
  assumes "http_Do w (newRequest w cnt reqUrl key) = (resp, err)"
  shows "doRequest w cnt reqUrl key verbose report =
    (case resp of
       None \<Rightarrow>
         (case err of
            None \<Rightarrow> (report\<lparr>TotalRequests := TotalRequests report + 1\<rparr>, [])
          | Some e \<Rightarrow>
              (report\<lparr>TotalRequests := TotalRequests report + 1,
                      TotalFail := TotalFail report + 1\<rparr>,
               [(ErrorC, \<lparr>Index = cnt, Response = None, Err = Some e\<rparr>)]))
     | Some r \<Rightarrow>
         if StatusCode r \<in> {200, 201, 202, 204} then
           (case err of
              None \<Rightarrow>
                (report\<lparr>TotalRequests := TotalRequests report + 1,
                        TotalSuccess := TotalSuccess report + 1\<rparr>,
                 [(ResultC, \<lparr>Index = cnt, Response = Some r, Err = None\<rparr>)])
            | Some e \<Rightarrow>
                (report\<lparr>TotalRequests := TotalRequests report + 1,
                        TotalSuccess := TotalSuccess report + 1,
                        TotalFail := TotalFail report + 1\<rparr>,
                 [(ResultC, \<lparr>Index = cnt, Response = Some r, Err = None\<rparr>),
                  (ErrorC, \<lparr>Index = cnt, Response = None, Err = Some e\<rparr>)]))
         else
           (case err of
              None \<Rightarrow>
                (report\<lparr>TotalRequests := TotalRequests report + 1,
                        TotalFail := TotalFail report + 1\<rparr>,
                 [(ErrorC, \<lparr>Index = cnt, Response = Some r, Err = None\<rparr>)])
            | Some e \<Rightarrow>
                (report\<lparr>TotalRequests := TotalRequests report + 1,
                        TotalFail := TotalFail report + 2\<rparr>,
                 [(ErrorC, \<lparr>Index = cnt, Response = Some r, Err = Some e\<rparr>),
                  (ErrorC, \<lparr>Index = cnt, Response = None, Err = Some e\<rparr>)])))"
  using assms by (simp add: doRequest_def Let_def split: option.splits)

lemma doRequest_TotalRequests:
  "TotalRequests (fst (doRequest w cnt reqUrl key verbose report)) = TotalRequests report + 1"
  by (simp add: doRequest_def Let_def split: prod.splits option.splits)

subsection \<open>The collectors\<close>

lemma andThen_Panicked_iff:
  "snd (andThen p q) = Panicked \<longleftrightarrow>
     snd p = Panicked \<or> (snd p = Returned \<and> snd q = Panicked)"
  by (cases p; cases "snd p") (auto simp: andThen_def)

lemma check_not_Panicked: "snd (check e) \<noteq> Panicked"
  by (simp add: check_def exitGracefully_def split: option.splits)

lemma processResults_case_no_panic:
  assumes "Response x = Some r"
  shows "snd (snd (processResults_case bulk v n x)) \<noteq> Panicked"
  using assms
  by (simp add: processResults_case_def Let_def andThen_Panicked_iff check_not_Panicked
        split: sum.splits prod.splits)

lemma processErrors_case_no_panic:
  assumes "Err x = None \<longrightarrow> Response x \<noteq> None"
  shows "snd (snd (processErrors_case bulk v n x)) \<noteq> Panicked"
  using assms
  by (auto simp: processErrors_case_def Let_def andThen_Panicked_iff check_not_Panicked
        split: sum.splits option.splits)

subsection \<open>The launch loop and the workers of a burst\<close>

lemma sint_succ:
  fixes idx :: goint
  assumes "sint idx < 9223372036854775807"
  shows "sint (idx + 1) = sint idx + 1"
proof -
  have "- (2 ^ 63) \<le> sint idx" using sint_ge [of idx] by simp
  with assms show ?thesis
    by (simp add: sint_word_ariths signed_take_bit_int_eq_self)
qed

lemma spawn_loop_upto:
  fixes idx rqs :: goint
  assumes "rqs \<noteq> 0x7FFFFFFFFFFFFFFF" and "sint idx \<le> sint rqs + 1"
  shows "spawn_loop idx rqs started = Some (started @ map word_of_int [sint idx..sint rqs])"
  using assms(2)
proof (induction "nat (sint rqs + 1 - sint idx)" arbitrary: idx started)
  case 0
  then have "sint idx = sint rqs + 1" by simp
  then have "\<not> idx \<le>s rqs" and "[sint idx..sint rqs] = []"
    by (simp_all add: word_sle_eq)
  then show ?case by (subst spawn_loop.simps) simp
next
  case (Suc n)
  then have le: "sint idx \<le> sint rqs" by linarith
  have "sint rqs \<noteq> 9223372036854775807"
  proof
    assume "sint rqs = 9223372036854775807"
    then have "word_of_int (sint rqs) = (word_of_int 9223372036854775807 :: goint)" by simp
    then show False using assms(1) by simp
  qed
  moreover have "sint rqs < 2 ^ 63" using sint_lt [of rqs] by simp
  ultimately have "sint idx < 9223372036854775807" using le by simp
  then have step: "sint (idx + 1) = sint idx + 1" by (rule sint_succ)
  have "n = nat (sint rqs + 1 - sint (idx + 1))" using Suc(2) step by simp
  moreover have "sint (idx + 1) \<le> sint rqs + 1" using le step by simp
  ultimately have "spawn_loop (idx + 1) rqs (started @ [idx]) =
      Some ((started @ [idx]) @ map word_of_int [sint (idx + 1)..sint rqs])"
    by (rule Suc(1))
  moreover have "[sint idx..sint rqs] = sint idx # [sint idx + 1..sint rqs]"
    using le by (simp add: upto_rec1)
  moreover have "idx \<le>s rqs" using le by (simp add: word_sle_eq)
  ultimately show ?case
    by (subst spawn_loop.simps) (simp add: step)
qed

lemma run_workers_TotalRequests:
  "TotalRequests (fst (run_workers W url key verbose order st)) =
     TotalRequests (fst st) + of_nat (length order)"
proof (induction order arbitrary: st)
  case Nil
  then show ?case by simp
next
  case (Cons i order)
  obtain report1 sent where d: "doRequest (W i) i url key verbose (fst st) = (report1, sent)"
    by (cases "doRequest (W i) i url key verbose (fst st)")
  then have "TotalRequests report1 = TotalRequests (fst st) + 1"
    using doRequest_TotalRequests [of "W i" i url key verbose "fst st"] by simp
  then show ?case
    by (simp add: d Cons.IH)
qed

lemma andThen_status:
  "snd (andThen p q) = (if snd p = Returned then snd q else snd p)"
  by (cases p; cases "snd p") (auto simp: andThen_def)

lemma check_status: "snd (check e) = Returned \<or> snd (check e) = Exited 1"
  by (simp add: check_def exitGracefully_def split: option.splits)

lemma processResults_case_status:
  assumes "Response x \<noteq> None"
  shows "snd (snd (processResults_case bulk v n x)) = Returned \<or>
         v \<and> snd (snd (processResults_case bulk v n x)) = Exited 1"
proof -
  obtain r where r: "Response x = Some r" using assms by auto
  show ?thesis
    using check_status
    by (auto simp: processResults_case_def Let_def r andThen_status
          split: sum.splits prod.splits)
qed

lemma processErrors_case_status:
  assumes "Err x \<noteq> None \<or> Response x \<noteq> None"
  shows "snd (snd (processErrors_case bulk v n x)) = Returned \<or>
         v \<and> snd (snd (processErrors_case bulk v n x)) = Exited 1"
  using assms check_status
  by (auto simp: processErrors_case_def Let_def andThen_status
        split: sum.splits option.splits)

lemma processResults_status:
  assumes "\<forall>x \<in> set xs. Response x \<noteq> None"
  shows "snd (processResults bulk v n xs) = Returned \<or>
         v \<and> snd (processResults bulk v n xs) = Exited 1"
  using assms
proof (induction xs arbitrary: n)
  case Nil
  then show ?case by simp
next
  case (Cons x xs)
  obtain n1 es st where c: "processResults_case bulk v n x = (n1, es, st)"
    by (cases "processResults_case bulk v n x")
  have "Response x \<noteq> None" using Cons.prems by simp
  from processResults_case_status [OF this, of bulk v n]
  have st: "st = Returned \<or> v \<and> st = Exited 1" by (simp add: c)
  show ?case
    using st Cons.IH [of n1] Cons.prems by (auto simp: c andThen_status)
qed

lemma processErrors_status:
  assumes "\<forall>x \<in> set xs. Err x \<noteq> None \<or> Response x \<noteq> None"
  shows "snd (processErrors bulk v n xs) = Returned \<or>
         v \<and> snd (processErrors bulk v n xs) = Exited 1"
  using assms
proof (induction xs arbitrary: n)
  case Nil
  then show ?case by simp
next
  case (Cons x xs)
  obtain n1 es st where c: "processErrors_case bulk v n x = (n1, es, st)"
    by (cases "processErrors_case bulk v n x")
  have "Err x \<noteq> None \<or> Response x \<noteq> None" using Cons.prems by simp
  from processErrors_case_status [OF this, of bulk v n]
  have st: "st = Returned \<or> v \<and> st = Exited 1" by (simp add: c)
  show ?case
    using st Cons.IH [of n1] Cons.prems by (auto simp: c andThen_status)
qed

lemma collectors_status:
  assumes "\<forall>p \<in> set sent. readable p"
  shows "snd (collectors bulk v sent) = Returned \<or>
         v \<and> snd (collectors bulk v sent) = Exited 1"
proof -
  have r: "\<forall>x \<in> set (map snd (filter (\<lambda>p. fst p = ResultC) sent)). Response x \<noteq> None"
    using assms by (auto simp: readable_def)
  have e: "\<forall>x \<in> set (map snd (filter (\<lambda>p. fst p = ErrorC) sent)).
             Err x \<noteq> None \<or> Response x \<noteq> None"
    using assms by (fastforce simp: readable_def)
  show ?thesis
    using processResults_status [OF r, of bulk v 0] processErrors_status [OF e, of bulk v 0]
    by (auto simp: collectors_def andThen_status)
qed

lemma collectors_Nil: "collectors bulk v [] = ([], Returned)"
  by (simp add: collectors_def andThen_def)

lemma doRequest_readable:
  "\<forall>p \<in> set (snd (doRequest w cnt reqUrl key verbose report)). readable p"
proof -
  obtain resp err where h: "http_Do w (newRequest w cnt reqUrl key) = (resp, err)"
    by (cases "http_Do w (newRequest w cnt reqUrl key)")
  show ?thesis
    unfolding doRequest_unfold [OF h]
    by (auto simp: readable_def split: option.splits if_splits)
qed

lemma run_workers_readable:
  assumes "\<forall>p \<in> set (snd st). readable p"
  shows "\<forall>p \<in> set (snd (run_workers W url key verbose order st)). readable p"
  using assms
proof (induction order arbitrary: st)
  case Nil
  then show ?case by simp
next
  case (Cons i order)
  obtain report1 sent where d: "doRequest (W i) i url key verbose (fst st) = (report1, sent)"
    by (cases "doRequest (W i) i url key verbose (fst st)")
  have "\<forall>p \<in> set sent. readable p"
    using doRequest_readable [of "W i" i url key verbose "fst st"] by (simp add: d)
  then have "\<forall>p \<in> set (snd (report1, snd st @ sent)). readable p"
    using Cons.prems by auto
  from Cons.IH [OF this] show ?case by (simp add: d)
qed

lemma burst_readable:
  assumes "burst W sched url key rqs verbose report = Some (report1, sent)"
  shows "\<forall>p \<in> set sent. readable p"
proof -
  from assms obtain started where
    "run_workers W url key verbose (sched started) (report, []) = (report1, sent)"
    by (auto simp: burst_def split: option.splits)
  then show ?thesis
    using run_workers_readable [of "(report, [])" W url key verbose "sched started"] by simp
qed

lemma spawn_loop_none:
  "\<not> 1 \<le>s rqs \<Longrightarrow> spawn_loop 1 rqs [] = Some []"
  by (subst spawn_loop.simps) simp

lemma burst_idle:
  assumes "\<not> 1 \<le>s rqs" and "sched [] = []"
  shows "burst W sched url key rqs verbose report = Some (report, [])"
  using assms by (simp add: burst_def spawn_loop_none)

lemma burst_total:
  fixes rqs :: goint
  assumes "rqs \<noteq> 0x7FFFFFFFFFFFFFFF"
  shows "\<exists>out. burst W sched url key rqs verbose report = Some out"
proof (cases "1 \<le>s rqs")
  case True
  then have "sint (1 :: goint) \<le> sint rqs + 1" by (simp add: word_sle_eq)
  from spawn_loop_upto [OF assms this, of "[]"] show ?thesis
    by (simp add: burst_def)
next
  case False
  then show ?thesis by (simp add: burst_def spawn_loop_none)
qed

lemma executeRequestWithTimer_idle:
  assumes "\<not> 1 \<le>s rqs" and "\<forall>k. sched k [] = []"
  shows "executeRequestWithTimer n W sched url key rqs verbose report = Some (report, [], Returned)"
  using assms by (induction n) (simp_all add: burst_idle collectors_Nil)

lemma executeRequestWithTimer_total:
  fixes rqs :: goint
  assumes "rqs \<noteq> 0x7FFFFFFFFFFFFFFF"
  shows "\<exists>bg. executeRequestWithTimer n W sched url key rqs verbose report = Some bg"
proof (induction n)
  case 0
  then show ?case by simp
next
  case (Suc n)
  then obtain report1 es st where
    IH: "executeRequestWithTimer n W sched url key rqs verbose report = Some (report1, es, st)"
    by (metis prod_cases3)
  obtain report2 sent where
    b: "burst (W (Suc n)) (sched (Suc n)) url key rqs verbose report1 = Some (report2, sent)"
    using burst_total [OF assms, of "W (Suc n)" "sched (Suc n)" url key verbose report1] by auto
  show ?case
    by (cases st) (simp_all add: IH b split: prod.splits)
qed

lemma executeRequestWithTimer_status:
  assumes "executeRequestWithTimer n W sched url key rqs verbose report = Some (report1, es, st)"
  shows "st = Returned \<or> verbose \<and> st = Exited 1"
  using assms
proof (induction n arbitrary: report1 es st)
  case 0
  then show ?case by simp
next
  case (Suc n)
  from Suc.prems obtain report0 es0 st0 where
    p: "executeRequestWithTimer n W sched url key rqs verbose report = Some (report0, es0, st0)"
    by (auto split: option.splits)
  note IH = Suc.IH [OF p]
  show ?case
  proof (cases "st0 = Returned")
    case False
    then have "st = st0" using Suc.prems p by (cases st0) auto
    then show ?thesis using IH by simp
  next
    case True
    with Suc.prems p obtain report2 sent where
      b: "burst (W (Suc n)) (sched (Suc n)) url key rqs verbose report0 = Some (report2, sent)"
      and st: "st = snd (collectors (of_nat (Suc n)) verbose sent)"
      by (auto split: option.splits prod.splits)
    show ?thesis
      using collectors_status [OF burst_readable [OF b], of "of_nat (Suc n)" verbose] st
      by auto
  qed
qed

subsection \<open>The body of the request\<close>

lemma dec_plain: "\<forall>c \<in> set (dec n). plain c"
proof (induction n rule: dec.induct)
  case (1 n)
  have digit: "plain (''0123456789'' ! k)" if "k < 10" for k
  proof -
    have "''0123456789'' ! k \<in> set ''0123456789''"
      using that by (intro nth_mem) simp
    then show ?thesis by (auto simp: plain_def)
  qed
  show ?case
  proof (cases "n < 10")
    case True
    then show ?thesis by (subst dec.simps) (simp add: digit)
  next
    case False
    then show ?thesis
      using "1.IH" by (subst dec.simps) (simp add: digit)
  qed
qed

lemma format_d_plain: "\<forall>c \<in> set (format_d i). plain c"
  using dec_plain by (simp add: format_d_def) (simp add: plain_def)

lemma json_escape_plain: "plain c \<Longrightarrow> json_escape c = [c]"
  by (auto simp: plain_def json_escape_def)

lemma concat_json_escape:
  "\<forall>c \<in> set s. json_escape c = [c] \<Longrightarrow> concat (map json_escape s) = s"
  by (induction s) simp_all

lemma json_quote_format_d:
  "concat (map json_escape (format_d i)) = format_d i"
  using format_d_plain by (intro concat_json_escape) (simp add: json_escape_plain)

lemma Body_req_newRequest:
  \<open>Body_req (newRequest w cnt reqUrl key) =
     ''{"date":'' @ json_quote (time_Now w) @ '',"name":"request #'' @ format_d cnt @
     ''","requests_sent":'' @ format_d cnt @ ''}''\<close>
  by (simp add: newRequest_def json_of_map_def Let_def json_quote_def json_escape_def
        json_quote_format_d)

subsection \<open>Indenting the marshalled Report\<close>

lemma dec_0: "dec 0 = ''0''"
  by (subst dec.simps) simp

lemma digit_nth: "k < 10 \<Longrightarrow> ''0123456789'' ! k \<in> set ''0123456789''"
  by (intro nth_mem) simp

lemma digit19_nth:
  assumes "0 < k" and "k < 10"
  shows "''0123456789'' ! k \<in> set ''123456789''"
proof -
  obtain j where k: "k = Suc j" using assms(1) by (cases k) auto
  then have "''0123456789'' ! k = ''123456789'' ! j" by simp
  moreover have "''123456789'' ! j \<in> set ''123456789''"
    using assms(2) k by (intro nth_mem) simp
  ultimately show ?thesis by simp
qed

lemma dec_shape:
  "0 < n \<Longrightarrow> \<exists>d ds. dec n = d # ds \<and> d \<in> set ''123456789'' \<and> set ds \<subseteq> set ''0123456789''"
proof (induction n rule: dec.induct)
  case (1 n)
  show ?case
  proof (cases "n < 10")
    case True
    then have "dec n = [''0123456789'' ! n]" by (subst dec.simps) simp
    then show ?thesis using digit19_nth [OF "1.prems" True] by simp
  next
    case False
    then have "0 < n div 10" by simp
    with False "1.IH" obtain d ds where
      IH: "dec (n div 10) = d # ds" "d \<in> set ''123456789''" "set ds \<subseteq> set ''0123456789''"
      by blast
    have "dec n = d # (ds @ [''0123456789'' ! (n mod 10)])"
      using False IH(1) by (subst dec.simps) simp
    moreover have "''0123456789'' ! (n mod 10) \<in> set ''0123456789''"
      by (rule digit_nth) simp
    ultimately show ?thesis using IH(2,3) by auto
  qed
qed

lemma digit19_facts:
  assumes "d \<in> set ''123456789''"
  shows "isDigit19 d" "isDigit d" "\<not> isSpace d" "d \<noteq> CHR ''0''" "d \<noteq> CHR ''{''"
    "d \<noteq> CHR ''[''" "d \<noteq> CHR 0x22" "d \<noteq> CHR ''-''" "d \<noteq> CHR ''t''" "d \<noteq> CHR ''f''"
    "d \<noteq> CHR ''n''"
  using assms by (auto simp: isDigit19_def isDigit_def isSpace_def)

lemma digit_facts:
  assumes "c \<in> set ''0123456789''"
  shows "isDigit c"
  using assms by (auto simp: isDigit_def)

lemma step_begin19:
  assumes "d \<in> set ''123456789''" and "scan_step s = S_BeginValue"
  shows "scanner_step s d = (scanBeginLiteral, s\<lparr>scan_step := S_1\<rparr>)"
  using assms(2) digit19_facts [OF assms(1)]
  by (simp add: scanner_step_def stateBeginValue_def)

lemma step_neg19:
  assumes "d \<in> set ''123456789''" and "scan_step s = S_Neg"
  shows "scanner_step s d = (scanContinue, s\<lparr>scan_step := S_1\<rparr>)"
  using assms(2) digit19_facts [OF assms(1)]
  by (simp add: scanner_step_def stateNeg_def)

lemma step_digit:
  assumes "c \<in> set ''0123456789''" and "scan_step s = S_1"
  shows "scanner_step s c = (scanContinue, s\<lparr>scan_step := S_1\<rparr>)"
  using assms(2) digit_facts [OF assms(1)]
  by (simp add: scanner_step_def state1_def)

lemma stateEndValue_step: "stateEndValue (s\<lparr>scan_step := x\<rparr>) c = stateEndValue s c"
  by (simp add: stateEndValue_def stateEndTop_def scanner_error_def popParseState_def
        split: list.splits parse_state.splits)

lemma step_number_end:
  assumes "c = CHR '','' \<or> c = CHR ''}''" and "scan_step s = S_1 \<or> scan_step s = S_0"
  shows "scanner_step s c = scanner_step (s\<lparr>scan_step := S_EndValue\<rparr>) c"
  using assms
  by (auto simp: scanner_step_def state1_def state0_def isDigit_def stateEndValue_step)

lemma loop_number_end:
  assumes "c = CHR '','' \<or> c = CHR ''}''" and "scan_step s = S_1 \<or> scan_step s = S_0"
  shows "appendIndent_loop p i s need d (c # rest) =
         appendIndent_loop p i (s\<lparr>scan_step := S_EndValue\<rparr>) need d (c # rest)"
  by (simp add: step_number_end [OF assms])

lemma loop_digits:
  assumes "set ds \<subseteq> set ''0123456789''" and "scan_step s = S_1"
  shows "appendIndent_loop p i s False d (ds @ rest) =
         apsnd ((@) ds) (appendIndent_loop p i (s\<lparr>scan_step := S_1\<rparr>) False d rest)"
  using assms
proof (induction ds arbitrary: s)
  case Nil
  then have "s\<lparr>scan_step := S_1\<rparr> = s" by (cases s) simp
  then show ?case by (simp add: apsnd_def map_prod_def split: prod.splits)
next
  case (Cons c ds)
  then have c: "c \<in> set ''0123456789''" by simp
  have "appendIndent_loop p i s False d ((c # ds) @ rest) =
        apsnd ((#) c) (appendIndent_loop p i (s\<lparr>scan_step := S_1\<rparr>) False d (ds @ rest))"
    by (simp add: step_digit [OF c Cons.prems(2)])
  also have "\<dots> = apsnd ((#) c) (apsnd ((@) ds)
        (appendIndent_loop p i (s\<lparr>scan_step := S_1\<rparr>) False d rest))"
    using Cons.IH [of "s\<lparr>scan_step := S_1\<rparr>"] Cons.prems(1) by simp
  finally show ?case by (simp add: apsnd_def map_prod_def split: prod.splits)
qed

lemma digit19_not_punct:
  assumes "d \<in> set ''123456789''"
  shows "d \<noteq> CHR ''{''" "d \<noteq> CHR ''[''" "d \<noteq> CHR '',''" "d \<noteq> CHR '':''" "d \<noteq> CHR ''}''"
    "d \<noteq> CHR '']''"
  using assms by auto

lemma loop_nat:
  assumes "scan_step s = S_BeginValue \<or> scan_step s = S_Neg"
    and "c = CHR '','' \<or> c = CHR ''}''"
    and "scan_step s = S_Neg \<longrightarrow> 0 < n"
  shows "appendIndent_loop p i s False d (dec n @ c # rest) =
         apsnd ((@) (dec n))
           (appendIndent_loop p i (s\<lparr>scan_step := S_EndValue\<rparr>) False d (c # rest))"
proof (cases "n = 0")
  case True
  with assms(1,3) have b: "scan_step s = S_BeginValue" by auto
  have "scanner_step s (CHR ''0'') = (scanBeginLiteral, s\<lparr>scan_step := S_0\<rparr>)"
    using b by (simp add: scanner_step_def stateBeginValue_def isSpace_def)
  then show ?thesis
    using loop_number_end [OF assms(2), of "s\<lparr>scan_step := S_0\<rparr>" p i False d rest]
    by (simp add: True dec_0)
next
  case False
  then obtain d0 ds where
    sh: "dec n = d0 # ds" "d0 \<in> set ''123456789''" "set ds \<subseteq> set ''0123456789''"
    using dec_shape [of n] by auto
  have st: "\<exists>v. scanner_step s d0 = (v, s\<lparr>scan_step := S_1\<rparr>) \<and>
                (v = scanBeginLiteral \<or> v = scanContinue)"
    using assms(1) step_begin19 [OF sh(2)] step_neg19 [OF sh(2)] by auto
  then obtain v where v: "scanner_step s d0 = (v, s\<lparr>scan_step := S_1\<rparr>)"
    "v = scanBeginLiteral \<or> v = scanContinue" by auto
  have "appendIndent_loop p i s False d (dec n @ c # rest) =
        apsnd ((#) d0) (appendIndent_loop p i (s\<lparr>scan_step := S_1\<rparr>) False d (ds @ c # rest))"
    using v digit19_not_punct [OF sh(2)] by (auto simp: sh(1))
  also have "\<dots> = apsnd ((#) d0) (apsnd ((@) ds)
        (appendIndent_loop p i (s\<lparr>scan_step := S_1\<rparr>) False d (c # rest)))"
    using loop_digits [OF sh(3), of "s\<lparr>scan_step := S_1\<rparr>" p i d "c # rest"] by simp
  also have "\<dots> = apsnd ((#) d0) (apsnd ((@) ds)
        (appendIndent_loop p i (s\<lparr>scan_step := S_EndValue\<rparr>) False d (c # rest)))"
    using loop_number_end [OF assms(2), of "s\<lparr>scan_step := S_1\<rparr>" p i False d rest] by simp
  finally show ?thesis by (simp add: sh(1) apsnd_def map_prod_def split: prod.splits)
qed

lemma loop_format_d:
  assumes "scan_step s = S_BeginValue" and "c = CHR '','' \<or> c = CHR ''}''"
  shows "appendIndent_loop p i s False d (format_d x @ c # rest) =
         apsnd ((@) (format_d x))
           (appendIndent_loop p i (s\<lparr>scan_step := S_EndValue\<rparr>) False d (c # rest))"
proof (cases "sint x < 0")
  case False
  then show ?thesis
    using loop_nat [of s c "nat (sint x)" p i d rest] assms by (simp add: format_d_def)
next
  case True
  have "scanner_step s (CHR ''-'') = (scanBeginLiteral, s\<lparr>scan_step := S_Neg\<rparr>)"
    using assms(1) by (simp add: scanner_step_def stateBeginValue_def isSpace_def)
  moreover have "appendIndent_loop p i (s\<lparr>scan_step := S_Neg\<rparr>) False d
        (dec (nat (- sint x)) @ c # rest) =
      apsnd ((@) (dec (nat (- sint x))))
        (appendIndent_loop p i (s\<lparr>scan_step := S_EndValue\<rparr>) False d (c # rest))"
    using loop_nat [of "s\<lparr>scan_step := S_Neg\<rparr>" c "nat (- sint x)" p i d rest] assms(2) True
    by simp
  ultimately show ?thesis
    using True by (simp add: format_d_def apsnd_def map_prod_def split: prod.splits)
qed

lemma prettyPrint_Report:
  "prettyPrint (json_Marshal (json_of_Report r)) = (final_report_text r, None)"
proof -
  have "json_Indent (json_Marshal (json_of_Report r)) [] ''  '' = Inr (final_report_text r)"
    by (simp add: json_Indent_def json_of_Report_def json_quote_def json_escape_def
          scanner_reset_def scanner_step_def scanner_eof_def
          stateBeginValue_def stateBeginStringOrEmpty_def stateBeginString_def
          stateInString_def stateEndValue_def stateEndTop_def
          pushParseState_def popParseState_def
          isSpace_def appendNewline_def final_report_text_def loop_format_d)
  then show ?thesis by (simp add: prettyPrint_def)
qed

subsection \<open>The run controller\<close>

lemma executeRequests_unfold:
  "executeRequests url key rqs duration verbose report =
     ([Log ''Waiting for all requests to be executed...'',
       Go_executeRequestWithTimer url key rqs verbose,
       Sleep (time_Second * (duration + 1)),
       Log ''Requests executed successfully.'',
       Log ''--------------------REPORT--------------------'',
       Stdout (final_report_text report @ [CHR 0x0A])], Returned)"
  by (simp add: executeRequests_def andThen_def check_def prettyPrint_Report)

lemma sint_seconds:
  fixes duration :: goint
  assumes "- 9223372037 \<le> sint duration" and "sint duration \<le> 9223372035"
  shows "sint (time_Second * (duration + 1)) = (sint duration + 1) * 1000000000"
proof -
  have lo: "- (2 ^ 63) \<le> sint duration" using sint_ge [of duration] by simp
  have d1: "sint (duration + 1) = sint duration + 1"
    using assms lo by (simp add: sint_word_ariths signed_take_bit_int_eq_self)
  have s: "sint time_Second = 1000000000" by (simp add: time_Second_def)
  have "sint (time_Second * (duration + 1)) =
          signed_take_bit 63 (1000000000 * (sint duration + 1))"
    using sint_word_mult [of time_Second "duration + 1"] by (simp add: d1 s)
  also have "\<dots> = 1000000000 * (sint duration + 1)"
    using assms by (intro signed_take_bit_int_eq_self) simp_all
  finally show ?thesis by simp
qed

lemma process_starts:
  "\<exists>rest. fst (process url key rqs duration verbose bg) =
     getFlags url key rqs duration verbose @
     [Log ''Waiting for all requests to be executed...'',
      Go_executeRequestWithTimer url key rqs verbose,
      Sleep (time_Second * (duration + 1))] @ rest"
  by (cases bg; cases "snd (snd bg)")
     (auto simp: process_def main_go_def executeRequests_unfold andThen_def getFlags_def)

lemma process_status:
  "snd (process url key rqs duration verbose (report, es, st)) = st"
  by (cases st) (simp_all add: process_def main_go_def executeRequests_unfold andThen_def)

lemma process_returned:
  "process url key rqs duration verbose (report, es, Returned) =
     (getFlags url key rqs duration verbose @
      [Log ''Waiting for all requests to be executed...'',
       Go_executeRequestWithTimer url key rqs verbose,
       Sleep (time_Second * (duration + 1))] @ es @
      [Log ''Requests executed successfully.'',
       Log ''--------------------REPORT--------------------'',
       Stdout (final_report_text report @ [CHR 0x0A])], Returned)"
  by (simp add: process_def main_go_def executeRequests_unfold andThen_def getFlags_def)

section \<open>The claims\<close>

text \<open>
  C1. For every worker attempt that receives an HTTP response, the response is classified
  success exactly when its status code is 200, 201, 202 or 204: then \<open>TotalSuccess\<close> is
  incremented and the outcome is sent on the result channel, with the response and no
  error; for any other status code \<open>TotalSuccess\<close> is left alone, \<open>TotalFail\<close> is
  incremented and the outcome is sent on the error channel with the response attached.
  This holds whatever error the call returned next to the response; an error returned as
  well adds the increment and the send of lines 82 to 88.
\<close>

theorem doRequest_classifies_response:
  assumes "http_Do w (newRequest w cnt reqUrl key) = (Some r, err)"
  shows "(let (report1, sent) = doRequest w cnt reqUrl key verbose report in
          (StatusCode r \<in> {200, 201, 202, 204} \<longrightarrow>
             TotalSuccess report1 = TotalSuccess report + 1 \<and>
             TotalFail report1 = TotalFail report + (case err of None \<Rightarrow> 0 | Some e \<Rightarrow> 1) \<and>
             (ResultC, \<lparr>Index = cnt, Response = Some r, Err = None\<rparr>) \<in> set sent \<and>
             (ErrorC, \<lparr>Index = cnt, Response = Some r, Err = err\<rparr>) \<notin> set sent) \<and>
          (StatusCode r \<notin> {200, 201, 202, 204} \<longrightarrow>
             TotalSuccess report1 = TotalSuccess report \<and>
             TotalFail report1 = TotalFail report + 1 + (case err of None \<Rightarrow> 0 | Some e \<Rightarrow> 1) \<and>
             (ErrorC, \<lparr>Index = cnt, Response = Some r, Err = err\<rparr>) \<in> set sent \<and>
             (\<forall>x. (ResultC, x) \<notin> set sent)))"
  using assms by (auto simp: doRequest_def Let_def split: option.splits)

theorem doRequest_classifies_response_witness:
  "http_Do (world_returning (Some \<lparr>StatusCode = 201, Body = Inr ''{}''\<rparr>) None)
     (newRequest (world_returning (Some \<lparr>StatusCode = 201, Body = Inr ''{}''\<rparr>) None)
        4 ''https://postman-echo.com/post'' ''k'')
     = (Some \<lparr>StatusCode = 201, Body = Inr ''{}''\<rparr>, None) \<and>
   (let (report1, sent) =
          doRequest (world_returning (Some \<lparr>StatusCode = 201, Body = Inr ''{}''\<rparr>) None)
            4 ''https://postman-echo.com/post'' ''k'' False
            \<lparr>TotalRequests = 3, TotalSuccess = 2, TotalFail = 1\<rparr>
    in TotalSuccess report1 = 3 \<and> TotalFail report1 = 1 \<and>
       (ResultC, \<lparr>Index = 4, Response = Some \<lparr>StatusCode = 201, Body = Inr ''{}''\<rparr>, Err = None\<rparr>)
         \<in> set sent)"
  using doRequest_classifies_response
    [of "world_returning (Some \<lparr>StatusCode = 201, Body = Inr ''{}''\<rparr>) None"
        4 "''https://postman-echo.com/post''" "''k''"
        "\<lparr>StatusCode = 201, Body = Inr ''{}''\<rparr>" None False
        "\<lparr>TotalRequests = 3, TotalSuccess = 2, TotalFail = 1\<rparr>"]
  by (simp add: world_returning_def split: prod.splits)

text \<open>
  C2. The claim: for every combination of response and error, an attempt increments
  exactly one of \<open>TotalSuccess\<close> and \<open>TotalFail\<close>, once. The code at the pair a failed
  redirect policy returns, a 302 response together with an error: starting from the
  zero Report the attempt leaves \<open>TotalFail = 2\<close>, having sent two outcomes on the
  error channel.
\<close>

theorem doRequest_counts_redirect_failure_twice:
  "doRequest redirect_world 1 ''https://postman-echo.com/post'' ''k'' False Report_zero =
     (\<lparr>TotalRequests = 1, TotalSuccess = 0, TotalFail = 2\<rparr>,
      [(ErrorC, \<lparr>Index = 1, Response = Some redirect_response, Err = Some redirect_error\<rparr>),
       (ErrorC, \<lparr>Index = 1, Response = None, Err = Some redirect_error\<rparr>)])"
  by (simp add: doRequest_def Let_def redirect_world_def world_returning_def
        redirect_response_def Report_zero_def)

text \<open>
  C3. The claim: \<open>TotalSuccess + TotalFail = TotalRequests\<close> in the final Report and in
  its printed JSON, preserved by every attempt. The code at the same pair, a 302 response
  together with an error: the equality holds of the zero Report and fails after one
  attempt, and the Report printed from that state shows 1 request, 0 successes and 2
  failures.
\<close>

theorem report_sum_broken_by_redirect_failure:
  "TotalSuccess Report_zero + TotalFail Report_zero = TotalRequests Report_zero \<and>
   TotalSuccess (fst (doRequest redirect_world 1 ''https://postman-echo.com/post'' ''k'' False
      Report_zero)) +
   TotalFail (fst (doRequest redirect_world 1 ''https://postman-echo.com/post'' ''k'' False
      Report_zero)) \<noteq>
   TotalRequests (fst (doRequest redirect_world 1 ''https://postman-echo.com/post'' ''k'' False
      Report_zero)) \<and>
   final_report_text (fst (doRequest redirect_world 1 ''https://postman-echo.com/post'' ''k''
      False Report_zero)) =
     final_report_text \<lparr>TotalRequests = 1, TotalSuccess = 0, TotalFail = 2\<rparr> \<and>
   executeRequests ''https://postman-echo.com/post'' ''k'' 1 1 False
     (fst (doRequest redirect_world 1 ''https://postman-echo.com/post'' ''k'' False Report_zero)) =
     ([Log ''Waiting for all requests to be executed...'',
       Go_executeRequestWithTimer ''https://postman-echo.com/post'' ''k'' 1 False,
       Sleep 2000000000,
       Log ''Requests executed successfully.'',
       Log ''--------------------REPORT--------------------'',
       Stdout (final_report_text \<lparr>TotalRequests = 1, TotalSuccess = 0, TotalFail = 2\<rparr>
                 @ [CHR 0x0A])], Returned)"
  by (simp add: doRequest_def Let_def redirect_world_def world_returning_def
        redirect_response_def Report_zero_def executeRequests_unfold time_Second_def)

text \<open>
  C4. For every worker attempt whose HTTP call fails at the transport level (no response,
  an error), the attempt is counted as one request and one failure, and the single
  outcome it sends, on the error channel, carries the error and no response.
\<close>

theorem doRequest_transport_failure:
  assumes "http_Do w (newRequest w cnt reqUrl key) = (None, Some e)"
  shows "doRequest w cnt reqUrl key verbose report =
    (report\<lparr>TotalRequests := TotalRequests report + 1, TotalFail := TotalFail report + 1\<rparr>,
     [(ErrorC, \<lparr>Index = cnt, Response = None, Err = Some e\<rparr>)])"
  using assms by (simp add: doRequest_def Let_def)

theorem doRequest_transport_failure_witness:
  "http_Do (world_returning None (Some ''connection refused''))
     (newRequest (world_returning None (Some ''connection refused''))
        2 ''https://postman-echo.com/post'' ''k'')
     = (None, Some ''connection refused'') \<and>
   doRequest (world_returning None (Some ''connection refused''))
     2 ''https://postman-echo.com/post'' ''k'' False
     \<lparr>TotalRequests = 1, TotalSuccess = 1, TotalFail = 0\<rparr> =
     (\<lparr>TotalRequests = 2, TotalSuccess = 1, TotalFail = 1\<rparr>,
      [(ErrorC, \<lparr>Index = 2, Response = None, Err = Some ''connection refused''\<rparr>)])"
  using doRequest_transport_failure
    [of "world_returning None (Some ''connection refused'')"
        2 "''https://postman-echo.com/post''" "''k''" "''connection refused''" False
        "\<lparr>TotalRequests = 1, TotalSuccess = 1, TotalFail = 0\<rparr>"]
  by (simp add: world_returning_def)

text \<open>
  C5. The claim: a configuration with a non-positive requests-per-tick or duration is
  rejected before the run starts, with a non-zero exit status. The code at
  \<^verbatim>\<open>-rqs=0 -duration=0\<close>: the dispatcher goroutine is started, its first tick starts
  no worker, and the process ends with status 0.
\<close>

theorem process_runs_nonpositive_config:
  "executeRequestWithTimer 1 (\<lambda>k i. redirect_world) (\<lambda>k xs. xs)
     ''https://postman-echo.com/post'' ''k'' 0 False Report_zero
     = Some (Report_zero, [], Returned) \<and>
   Go_executeRequestWithTimer ''https://postman-echo.com/post'' ''k'' 0 False
     \<in> set (fst (process ''https://postman-echo.com/post'' ''k'' 0 0 False
                   (Report_zero, [], Returned))) \<and>
   exit_code (snd (process ''https://postman-echo.com/post'' ''k'' 0 0 False
                     (Report_zero, [], Returned))) = 0"
proof -
  have "executeRequestWithTimer 1 (\<lambda>k i. redirect_world) (\<lambda>k xs. xs)
     ''https://postman-echo.com/post'' ''k'' 0 False Report_zero
     = Some (Report_zero, [], Returned)"
    by (rule executeRequestWithTimer_idle) (simp_all add: word_sle_eq)
  then show ?thesis
    by (simp add: process_returned exit_code_def getFlags_def)
qed

text \<open>
  C5, as the code has it. No configuration is validated. For every configuration with a
  non-positive requests-per-tick or duration the run starts: main prints the flags,
  starts the dispatcher and sleeps, whatever the dispatcher does meanwhile. The process
  then ends in one of two ways (for a requests-per-tick below the largest \<^verbatim>\<open>int\<close>, where
  the launch loop of a tick ends): main wakes, prints the Report as the dispatcher left
  it and returns, with exit status 0; or, only with \<^verbatim>\<open>-verbose\<close> and a positive
  requests-per-tick, the \<^verbatim>\<open>check\<close> of a collector has ended the process during the sleep,
  with exit status 1. With a non-positive requests-per-tick no worker is ever started:
  the Report stays the zero Report, and the process prints it and ends with status 0.
\<close>

theorem process_no_validation:
  fixes rqs duration :: goint
  assumes "rqs \<le>s 0 \<or> duration \<le>s 0"
    and "\<forall>k xs. mset (sched k xs) = mset xs"
  shows
    "(\<forall>bg. \<exists>rest. fst (process url key rqs duration verbose bg) =
        getFlags url key rqs duration verbose @
        [Log ''Waiting for all requests to be executed...'',
         Go_executeRequestWithTimer url key rqs verbose,
         Sleep (time_Second * (duration + 1))] @ rest) \<and>
     (rqs \<noteq> 0x7FFFFFFFFFFFFFFF \<longrightarrow>
        (\<exists>report es st.
           executeRequestWithTimer n W sched url key rqs verbose Report_zero
             = Some (report, es, st) \<and>
           snd (process url key rqs duration verbose (report, es, st)) = st \<and>
           (st = Returned \<and>
              process url key rqs duration verbose (report, es, st) =
                (getFlags url key rqs duration verbose @
                 [Log ''Waiting for all requests to be executed...'',
                  Go_executeRequestWithTimer url key rqs verbose,
                  Sleep (time_Second * (duration + 1))] @ es @
                 [Log ''Requests executed successfully.'',
                  Log ''--------------------REPORT--------------------'',
                  Stdout (final_report_text report @ [CHR 0x0A])], Returned) \<and>
              exit_code st = 0
            \<or> verbose \<and> 1 \<le>s rqs \<and> st = Exited 1 \<and> exit_code st = 1))) \<and>
     (rqs \<le>s 0 \<longrightarrow>
        executeRequestWithTimer n W sched url key rqs verbose Report_zero
          = Some (Report_zero, [], Returned) \<and>
        process url key rqs duration verbose (Report_zero, [], Returned) =
          (getFlags url key rqs duration verbose @
           [Log ''Waiting for all requests to be executed...'',
            Go_executeRequestWithTimer url key rqs verbose,
            Sleep (time_Second * (duration + 1)),
            Log ''Requests executed successfully.'',
            Log ''--------------------REPORT--------------------'',
            Stdout (final_report_text Report_zero @ [CHR 0x0A])], Returned))"
proof -
  have nil: "\<forall>k. sched k [] = []"
    using assms(2) by (metis mset_zero_iff)
  have idle: "executeRequestWithTimer n W sched url key rqs verbose Report_zero
      = Some (Report_zero, [], Returned)" if "\<not> 1 \<le>s rqs"
    using that nil by (rule executeRequestWithTimer_idle)
  have neg: "\<not> 1 \<le>s rqs" if "rqs \<le>s 0"
    using that by (simp add: word_sle_eq)
  have run: "\<exists>report es st.
       executeRequestWithTimer n W sched url key rqs verbose Report_zero
         = Some (report, es, st) \<and>
       snd (process url key rqs duration verbose (report, es, st)) = st \<and>
       (st = Returned \<and>
          process url key rqs duration verbose (report, es, st) =
            (getFlags url key rqs duration verbose @
             [Log ''Waiting for all requests to be executed...'',
              Go_executeRequestWithTimer url key rqs verbose,
              Sleep (time_Second * (duration + 1))] @ es @
             [Log ''Requests executed successfully.'',
              Log ''--------------------REPORT--------------------'',
              Stdout (final_report_text report @ [CHR 0x0A])], Returned) \<and>
          exit_code st = 0
        \<or> verbose \<and> 1 \<le>s rqs \<and> st = Exited 1 \<and> exit_code st = 1)"
    if r: "rqs \<noteq> 0x7FFFFFFFFFFFFFFF"
  proof -
    obtain report es st where
      bg: "executeRequestWithTimer n W sched url key rqs verbose Report_zero
             = Some (report, es, st)"
      using executeRequestWithTimer_total [OF r, of n W sched url key verbose Report_zero]
      by (metis prod_cases3)
    have st: "st = Returned \<or> verbose \<and> st = Exited 1"
      using executeRequestWithTimer_status [OF bg] .
    have "1 \<le>s rqs" if ne: "st \<noteq> Returned"
      using ne idle bg by (cases "1 \<le>s rqs") auto
    then show ?thesis
      using bg st process_status [of url key rqs duration verbose report es st]
      by (auto simp: process_returned exit_code_def)
  qed
  show ?thesis
    using process_starts [of url key rqs duration verbose] run idle neg
    by (auto simp: process_returned)
qed

theorem process_no_validation_witness:
  "((1 :: goint) \<le>s 0 \<or> (0 :: goint) \<le>s 0) \<and>
   (\<forall>k (xs :: goint list). mset xs = mset xs) \<and>
   executeRequestWithTimer 1
     (\<lambda>k i. world_returning (Some \<lparr>StatusCode = 204, Body = Inr []\<rparr>) None) (\<lambda>k xs. xs)
     ''https://postman-echo.com/post'' ''k'' 1 True Report_zero =
     Some (\<lparr>TotalRequests = 1, TotalSuccess = 1, TotalFail = 0\<rparr>,
           [Log ''buffer # 1'', Log ''request #1 >> http status response 204'',
            Stderr (''error: unexpected end of JSON input'' @ [CHR 0x0A])],
           Exited 1) \<and>
   exit_code (snd (process ''https://postman-echo.com/post'' ''k'' 1 0 True
     (\<lparr>TotalRequests = 1, TotalSuccess = 1, TotalFail = 0\<rparr>,
      [Log ''buffer # 1'', Log ''request #1 >> http status response 204'',
       Stderr (''error: unexpected end of JSON input'' @ [CHR 0x0A])],
      Exited 1))) = 1"
proof -
  have ev: "executeRequestWithTimer 1
     (\<lambda>k i. world_returning (Some \<lparr>StatusCode = 204, Body = Inr []\<rparr>) None) (\<lambda>k xs. xs)
     ''https://postman-echo.com/post'' ''k'' 1 True Report_zero =
     Some (\<lparr>TotalRequests = 1, TotalSuccess = 1, TotalFail = 0\<rparr>,
           [Log ''buffer # 1'', Log ''request #1 >> http status response 204'',
            Stderr (''error: unexpected end of JSON input'' @ [CHR 0x0A])],
           Exited 1)"
    by code_simp
  show ?thesis
    using ev process_no_validation
      [of 1 0 "\<lambda>k xs. xs" "''https://postman-echo.com/post''" "''k''" True 1
          "\<lambda>k i. world_returning (Some \<lparr>StatusCode = 204, Body = Inr []\<rparr>) None"]
    by (simp add: word_sle_eq exit_code_def)
qed

text \<open>
  C6. Every worker increments \<open>TotalRequests\<close> exactly once, whatever its outcome. For
  every burst of \<open>N = rqs \<ge> 1\<close> workers (below the largest \<^verbatim>\<open>int\<close>, where the
  launch loop does not end), the launch loop starts the workers 1 to \<open>N\<close>, the burst
  completes in whatever order the scheduler runs them, and \<open>TotalRequests\<close> has then
  grown by exactly \<open>N\<close>, whatever each worker's outcome: in 64-bit arithmetic always,
  and as integers when the sum stays below \<open>2^63\<close>. Worker increments are taken as
  atomic.
\<close>

theorem burst_counts_requests:
  fixes rqs :: goint
  assumes "1 \<le>s rqs" and "rqs \<noteq> 0x7FFFFFFFFFFFFFFF"
    and "\<forall>started. mset (sched started) = mset started"
  shows "(\<forall>i r. TotalRequests (fst (doRequest (W i) i url key verbose r)) = TotalRequests r + 1) \<and>
         (\<exists>started report1 sent.
           spawn_loop 1 rqs [] = Some started \<and> length started = nat (sint rqs) \<and>
           burst W sched url key rqs verbose report = Some (report1, sent) \<and>
           TotalRequests report1 = TotalRequests report + rqs \<and>
           (sint (TotalRequests report) + sint rqs < 2 ^ 63 \<longrightarrow>
              sint (TotalRequests report1) = sint (TotalRequests report) + sint rqs))"
proof -
  let ?started = "map word_of_int [1..sint rqs] :: goint list"
  have pos: "1 \<le> sint rqs" using assms(1) by (simp add: word_sle_eq)
  have sp: "spawn_loop 1 rqs [] = Some ?started"
    using spawn_loop_upto [OF assms(2), of 1 "[]"] pos by simp
  have len: "length ?started = nat (sint rqs)" using pos by simp
  have "length (sched ?started) = length ?started"
    using assms(3) by (metis size_mset)
  moreover have "(of_nat (nat (sint rqs)) :: goint) = rqs" using pos by simp
  ultimately have tot:
    "TotalRequests (fst (run_workers W url key verbose (sched ?started) (report, [])))
      = TotalRequests report + rqs"
    using len by (simp add: run_workers_TotalRequests)
  have ovf: "sint (TotalRequests report + rqs) = sint (TotalRequests report) + sint rqs"
    if "sint (TotalRequests report) + sint rqs < 2 ^ 63"
  proof -
    have "- (2 ^ 63) \<le> sint (TotalRequests report)"
      using sint_ge [of "TotalRequests report"] by simp
    then show ?thesis
      using that pos
      by (simp add: sint_word_ariths signed_take_bit_int_eq_self)
  qed
  obtain report1 sent where
    rw: "run_workers W url key verbose (sched ?started) (report, []) = (report1, sent)"
    by (cases "run_workers W url key verbose (sched ?started) (report, [])")
  have "\<exists>started report1 sent.
           spawn_loop 1 rqs [] = Some started \<and> length started = nat (sint rqs) \<and>
           burst W sched url key rqs verbose report = Some (report1, sent) \<and>
           TotalRequests report1 = TotalRequests report + rqs \<and>
           (sint (TotalRequests report) + sint rqs < 2 ^ 63 \<longrightarrow>
              sint (TotalRequests report1) = sint (TotalRequests report) + sint rqs)"
    using sp len tot ovf rw
    by (intro exI [of _ ?started] exI [of _ report1] exI [of _ sent])
       (simp add: burst_def)
  then show ?thesis
    by (simp add: doRequest_TotalRequests)
qed

theorem burst_counts_requests_witness:
  "(1 :: goint) \<le>s 3 \<and> (\<forall>started :: goint list. mset (rev started) = mset started) \<and>
   (\<exists>started report1 sent.
      spawn_loop 1 3 [] = Some started \<and> length started = 3 \<and>
      burst (\<lambda>i. world_returning None (Some ''connection refused'')) rev
        ''https://postman-echo.com/post'' ''k'' 3 False
        \<lparr>TotalRequests = 5, TotalSuccess = 3, TotalFail = 2\<rparr> = Some (report1, sent) \<and>
      TotalRequests report1 = 8)"
  using burst_counts_requests
    [of 3 rev "\<lambda>i. world_returning None (Some ''connection refused'')"
        "''https://postman-echo.com/post''" "''k''" False
        "\<lparr>TotalRequests = 5, TotalSuccess = 3, TotalFail = 2\<rparr>"]
  by (auto simp: word_sle_eq)

text \<open>
  C7. The claim: every outcome sent has exactly one of response and error present, and
  the outcome for a response with a status code that is not accepted has the response
  and not the error. The code at a 302 response returned together with an error: the
  outcome sent for the response carries both.
\<close>

theorem outcome_with_response_and_error:
  "StatusCode redirect_response \<notin> {200, 201, 202, 204} \<and>
   (ErrorC, \<lparr>Index = 1, Response = Some redirect_response, Err = Some redirect_error\<rparr>)
     \<in> set (snd (doRequest redirect_world 1 ''https://postman-echo.com/post'' ''k'' False
                   Report_zero))"
  by (simp add: doRequest_def Let_def redirect_world_def world_returning_def
        redirect_response_def)

text \<open>
  C7, as the code has it. Every outcome sent has at least one of response and error
  present, and exactly one of them when it is sent on the result channel or when the HTTP
  call returned no error. An outcome on the error channel that has a response is the
  outcome for a response with a status code that is not accepted, and its \<open>Err\<close> is
  whatever error the call returned next to the response (none, if it returned none).
\<close>

theorem published_outcome_signal:
  assumes "http_Do w (newRequest w cnt reqUrl key) = (resp, err)"
    and "(c, x) \<in> set (snd (doRequest w cnt reqUrl key verbose report))"
  shows "(Response x \<noteq> None \<or> Err x \<noteq> None) \<and>
         (err = None \<or> c = ResultC \<longrightarrow> (Response x \<noteq> None) \<noteq> (Err x \<noteq> None)) \<and>
         (\<forall>r. c = ErrorC \<and> Response x = Some r \<longrightarrow>
              resp = Some r \<and> StatusCode r \<notin> {200, 201, 202, 204} \<and> Err x = err)"
  using assms(2) unfolding doRequest_unfold [OF assms(1)]
  by (auto split: option.splits if_splits)

theorem published_outcome_signal_witness:
  "http_Do (world_returning (Some \<lparr>StatusCode = 500, Body = Inr ''oops''\<rparr>) None)
     (newRequest (world_returning (Some \<lparr>StatusCode = 500, Body = Inr ''oops''\<rparr>) None)
        1 ''https://postman-echo.com/post'' ''k'')
     = (Some \<lparr>StatusCode = 500, Body = Inr ''oops''\<rparr>, None) \<and>
   (ErrorC, \<lparr>Index = 1, Response = Some \<lparr>StatusCode = 500, Body = Inr ''oops''\<rparr>, Err = None\<rparr>)
     \<in> set (snd (doRequest (world_returning (Some \<lparr>StatusCode = 500, Body = Inr ''oops''\<rparr>) None)
                   1 ''https://postman-echo.com/post'' ''k'' False Report_zero)) \<and>
   (Response \<lparr>Index = 1, Response = Some \<lparr>StatusCode = 500, Body = Inr ''oops''\<rparr>,
              Err = None\<rparr> \<noteq> None) \<noteq>
   (Err \<lparr>Index = (1 :: goint), Response = Some \<lparr>StatusCode = 500, Body = Inr ''oops''\<rparr>,
         Err = None\<rparr> \<noteq> None)"
  using published_outcome_signal
    [of "world_returning (Some \<lparr>StatusCode = 500, Body = Inr ''oops''\<rparr>) None"
        1 "''https://postman-echo.com/post''" "''k''"
        "Some \<lparr>StatusCode = 500, Body = Inr ''oops''\<rparr>" None ErrorC
        "\<lparr>Index = 1, Response = Some \<lparr>StatusCode = 500, Body = Inr ''oops''\<rparr>, Err = None\<rparr>"
        False Report_zero]
  by (simp add: world_returning_def doRequest_def Let_def)

text \<open>
  C8. For every attempt with index \<open>i\<close>, the request the worker hands to the HTTP client
  has the method POST, the parsed target URL, exactly the two headers
  \<^verbatim>\<open>Content-Type: application/json; charset=UTF-8\<close> and \<^verbatim>\<open>X-Api-Key\<close> with the configured
  key, and as body the bytes of the JSON object with the fields \<^verbatim>\<open>date\<close> (the
  current-time string, JSON-quoted; between plain quotes when it needs no escape),
  \<^verbatim>\<open>name\<close> (\<^verbatim>\<open>request #i\<close>) and \<^verbatim>\<open>requests_sent\<close> (\<open>i\<close>). The worker issues this request:
  what the client answers to it, and nothing else of the client, decides the outcomes
  the worker sends.
\<close>

theorem doRequest_issues_request:
  \<open>(let req = newRequest w cnt reqUrl key in
      Method req = ''POST'' \<and>
      URL req = url_Parse w reqUrl \<and>
      Header req ''Content-Type'' = Some [''application/json; charset=UTF-8''] \<and>
      Header req ''X-Api-Key'' = Some [key] \<and>
      dom (Header req) = {''Content-Type'', ''X-Api-Key''} \<and>
      Body_req req =
        ''{"date":'' @ json_quote (time_Now w) @ '',"name":"request #'' @ format_d cnt @
        ''","requests_sent":'' @ format_d cnt @ ''}'' \<and>
      ((\<forall>c \<in> set (time_Now w). json_escape c = [c]) \<longrightarrow>
         Body_req req =
           ''{"date":"'' @ time_Now w @ ''","name":"request #'' @ format_d cnt @
           ''","requests_sent":'' @ format_d cnt @ ''}'') \<and>
      (\<forall>resp err. http_Do w req = (resp, err) \<longrightarrow>
         snd (doRequest w cnt reqUrl key verbose report) =
           (case resp of
              None \<Rightarrow> []
            | Some r \<Rightarrow>
                [if StatusCode r \<in> {200, 201, 202, 204}
                 then (ResultC, \<lparr>Index = cnt, Response = Some r, Err = None\<rparr>)
                 else (ErrorC, \<lparr>Index = cnt, Response = Some r, Err = err\<rparr>)]) @
           (case err of
              None \<Rightarrow> []
            | Some e \<Rightarrow> [(ErrorC, \<lparr>Index = cnt, Response = None, Err = Some e\<rparr>)])))\<close>
proof -
  have hdr: "Method (newRequest w cnt reqUrl key) = ''POST''"
    "URL (newRequest w cnt reqUrl key) = url_Parse w reqUrl"
    "Header (newRequest w cnt reqUrl key) ''Content-Type'' =
       Some [''application/json; charset=UTF-8'']"
    "Header (newRequest w cnt reqUrl key) ''X-Api-Key'' = Some [key]"
    "dom (Header (newRequest w cnt reqUrl key)) = {''Content-Type'', ''X-Api-Key''}"
    by (auto simp: newRequest_def Let_def)
  have plainbody: \<open>Body_req (newRequest w cnt reqUrl key) =
           ''{"date":"'' @ time_Now w @ ''","name":"request #'' @ format_d cnt @
           ''","requests_sent":'' @ format_d cnt @ ''}''\<close>
    if "\<forall>c \<in> set (time_Now w). json_escape c = [c]"
    using concat_json_escape [OF that]
    by (simp add: Body_req_newRequest json_quote_def)
  have sends: "snd (doRequest w cnt reqUrl key verbose report) =
           (case resp of
              None \<Rightarrow> []
            | Some r \<Rightarrow>
                [if StatusCode r \<in> {200, 201, 202, 204}
                 then (ResultC, \<lparr>Index = cnt, Response = Some r, Err = None\<rparr>)
                 else (ErrorC, \<lparr>Index = cnt, Response = Some r, Err = err\<rparr>)]) @
           (case err of
              None \<Rightarrow> []
            | Some e \<Rightarrow> [(ErrorC, \<lparr>Index = cnt, Response = None, Err = Some e\<rparr>)])"
    if h: "http_Do w (newRequest w cnt reqUrl key) = (resp, err)" for resp err
    unfolding doRequest_unfold [OF h] by (simp split: option.splits)
  show ?thesis
    unfolding Let_def
    using hdr Body_req_newRequest [of w cnt reqUrl key] plainbody sends
    by (intro conjI allI impI) auto
qed

theorem doRequest_issues_request_witness:
  \<open>http_Do (world_returning None (Some ''connection refused''))
     (newRequest (world_returning None (Some ''connection refused''))
        7 ''https://postman-echo.com/post'' ''k'') = (None, Some ''connection refused'') \<and>
   Method (newRequest (world_returning None (Some ''connection refused''))
        7 ''https://postman-echo.com/post'' ''k'') = ''POST'' \<and>
   Header (newRequest (world_returning None (Some ''connection refused''))
        7 ''https://postman-echo.com/post'' ''k'') ''X-Api-Key'' = Some [''k''] \<and>
   Body_req (newRequest (world_returning None (Some ''connection refused''))
        7 ''https://postman-echo.com/post'' ''k'') =
     ''{"date":"2020-01-01 00:00:00 +0000 UTC","name":"request #7","requests_sent":7}'' \<and>
   snd (doRequest (world_returning None (Some ''connection refused''))
        7 ''https://postman-echo.com/post'' ''k'' False Report_zero) =
     [(ErrorC, \<lparr>Index = 7, Response = None, Err = Some ''connection refused''\<rparr>)]\<close>
proof -
  let ?W = "world_returning None (Some ''connection refused'')"
  let ?req = "newRequest ?W 7 ''https://postman-echo.com/post'' ''k''"
  have now: "time_Now ?W = ''2020-01-01 00:00:00 +0000 UTC''"
    by (simp add: world_returning_def)
  have esc: "\<forall>c \<in> set ''2020-01-01 00:00:00 +0000 UTC''. json_escape c = [c]"
    by (simp add: json_escape_def)
  have d7: "format_d 7 = ''7''"
    by (simp add: format_d_def dec.simps)
  have h: "http_Do ?W ?req = (None, Some ''connection refused'')"
    by (simp add: world_returning_def)
  note t = doRequest_issues_request
      [of ?W 7 "''https://postman-echo.com/post''" "''k''" False Report_zero,
       unfolded Let_def now]
  from t have "Method ?req = ''POST''" and "Header ?req ''X-Api-Key'' = Some [''k'']"
    by blast+
  moreover from t esc have \<open>Body_req ?req =
      ''{"date":"'' @ ''2020-01-01 00:00:00 +0000 UTC'' @ ''","name":"request #'' @ format_d 7 @
      ''","requests_sent":'' @ format_d 7 @ ''}''\<close>
    by blast
  moreover from t h have
    "snd (doRequest ?W 7 ''https://postman-echo.com/post'' ''k'' False Report_zero) =
       [(ErrorC, \<lparr>Index = 7, Response = None, Err = Some ''connection refused''\<rparr>)]"
    by fastforce
  ultimately show ?thesis
    using h by (simp add: d7)
qed

text \<open>
  C9. The claim: the run controller starts the dispatcher in the background, sleeps for
  exactly \<open>duration + 1\<close> seconds and then prints the Report as indented JSON. The code
  at \<^verbatim>\<open>-duration=9223372036\<close>: the nanosecond count
  \<^verbatim>\<open>time.Second * time.Duration(duration+1)\<close> overflows 64 bits, and the sleep asked for
  is negative, not 9223372037 seconds.
\<close>

theorem executeRequests_sleep_overflow:
  "sleeps (fst (executeRequests ''https://postman-echo.com/post'' ''k'' 10 9223372036 False
      Report_zero)) = [- 9223372036709551616] \<and>
   sleeps (fst (executeRequests ''https://postman-echo.com/post'' ''k'' 10 9223372036 False
      Report_zero)) \<noteq> [(9223372036 + 1) * 1000000000]"
  by (simp add: executeRequests_unfold time_Second_def)

text \<open>
  C9, as the code has it. For every duration from -9223372037 to 9223372035 seconds
  (so that \<open>duration + 1\<close> seconds fit the 64-bit nanosecond count of
  \<^verbatim>\<open>time.Duration\<close>), the run controller logs its start, starts the dispatcher as a
  goroutine, asks \<^verbatim>\<open>time.Sleep\<close> for exactly \<open>duration + 1\<close> seconds, logs, prints the
  Report as indented JSON with the fields \<^verbatim>\<open>TotalRequests\<close>, \<^verbatim>\<open>TotalSuccess\<close> and
  \<^verbatim>\<open>TotalFail\<close>, and returns.
\<close>

theorem executeRequests_run:
  fixes duration :: goint
  assumes "- 9223372037 \<le> sint duration" and "sint duration \<le> 9223372035"
  shows "executeRequests url key rqs duration verbose report =
           ([Log ''Waiting for all requests to be executed...'',
             Go_executeRequestWithTimer url key rqs verbose,
             Sleep (time_Second * (duration + 1)),
             Log ''Requests executed successfully.'',
             Log ''--------------------REPORT--------------------'',
             Stdout (final_report_text report @ [CHR 0x0A])], Returned) \<and>
         sleeps (fst (executeRequests url key rqs duration verbose report)) =
           [(sint duration + 1) * 1000000000]"
  using sint_seconds [OF assms] by (simp add: executeRequests_unfold)

theorem executeRequests_run_witness:
  "sleeps (fst (executeRequests ''https://postman-echo.com/post'' ''k'' 10 1 False Report_zero)) =
     [2000000000] \<and>
   snd (executeRequests ''https://postman-echo.com/post'' ''k'' 10 1 False Report_zero) = Returned"
  using executeRequests_run
    [of 1 "''https://postman-echo.com/post''" "''k''" 10 False Report_zero]
  by (simp add: time_Second_def)

text \<open>
  C10. Every outcome a worker sends on the result channel has a response and no error,
  and every outcome it sends on the error channel without an error has a response; so
  \<^verbatim>\<open>processResults\<close>, and \<^verbatim>\<open>processErrors\<close> in its branch for a nil error, never read
  \<^verbatim>\<open>StatusCode\<close> through a nil response: on these outcomes the collectors do not panic.
\<close>

theorem collectors_never_dereference_nil:
  assumes "(c, x) \<in> set (snd (doRequest w cnt reqUrl key verbose report))"
  shows "(c = ResultC \<longrightarrow>
            Response x \<noteq> None \<and> Err x = None \<and>
            snd (snd (processResults_case bulk v n x)) \<noteq> Panicked) \<and>
         (c = ErrorC \<longrightarrow>
            (Err x = None \<longrightarrow> Response x \<noteq> None) \<and>
            snd (snd (processErrors_case bulk v n x)) \<noteq> Panicked)"
proof -
  obtain resp err where h: "http_Do w (newRequest w cnt reqUrl key) = (resp, err)"
    by (cases "http_Do w (newRequest w cnt reqUrl key)")
  have shape: "(c = ResultC \<longrightarrow> Response x \<noteq> None \<and> Err x = None) \<and>
               (c = ErrorC \<longrightarrow> (Err x = None \<longrightarrow> Response x \<noteq> None))"
    using assms unfolding doRequest_unfold [OF h]
    by (auto split: option.splits if_splits)
  show ?thesis
    using shape processResults_case_no_panic [of x _ bulk v n]
      processErrors_case_no_panic [of x bulk v n]
    by auto
qed

theorem collectors_never_dereference_nil_witness:
  "(ResultC, \<lparr>Index = 1, Response = Some \<lparr>StatusCode = 200, Body = Inr ''{}''\<rparr>, Err = None\<rparr>)
     \<in> set (snd (doRequest (world_returning (Some \<lparr>StatusCode = 200, Body = Inr ''{}''\<rparr>) None)
                   1 ''https://postman-echo.com/post'' ''k'' True Report_zero)) \<and>
   snd (snd (processResults_case 1 True 0
     \<lparr>Index = 1, Response = Some \<lparr>StatusCode = 200, Body = Inr ''{}''\<rparr>, Err = None\<rparr>))
     \<noteq> Panicked"
  using collectors_never_dereference_nil
    [of ResultC
        "\<lparr>Index = 1, Response = Some \<lparr>StatusCode = 200, Body = Inr ''{}''\<rparr>, Err = None\<rparr>"
        "world_returning (Some \<lparr>StatusCode = 200, Body = Inr ''{}''\<rparr>) None"
        1 "''https://postman-echo.com/post''" "''k''" True Report_zero 1 True 0]
  by (simp add: world_returning_def doRequest_def Let_def)

end
